theory Spec2Isabelle
  imports Main "HOL-Library.Word" "HOL-Library.Finite_Map" "HOL-Library.Char_ord"
    "HOL-Library.List_Lexorder"
begin

unbundle bit_operations_syntax

section \<open>lambda/messages/errors.go: FromError\<close>

text \<open>
  \<open>InvokeResponse_Error\<close> is declared outside the files at hand; \<open>FromError\<close> and
  \<open>FromRecover\<close> show its four fields. The stack trace's element type is left as a
  type parameter, the nil slice being the empty list.
\<close>

record 'f InvokeResponse_Error =
  Message :: string
  Type :: string
  StackTrace :: "'f list"
  ShouldExit :: bool

text \<open>
  What \<open>reflect.TypeOf\<close> returns for an error value. A defined type carries its package
  path and its name; a pointer type \<open>*T\<close> has no name, and neither has any other type
  literal (such as a struct that embeds an error). A defined type whose underlying type
  is a pointer has no methods and is never the type of an error value, so
  \<open>Kind() == reflect.Ptr\<close> holds exactly for \<open>PtrTo\<close>.
\<close>

datatype rtype = Defined string string | PtrTo rtype | Literal

text \<open>\<open>Type.Kind() == reflect.Ptr\<close>, \<open>Type.Elem()\<close> (called on pointer types only) and
  \<open>Type.Name()\<close>.\<close>

fun isPtr :: "rtype \<Rightarrow> bool" where
  "isPtr (PtrTo _) = True"
| "isPtr _ = False"

fun Elem :: "rtype \<Rightarrow> rtype" where
  "Elem (PtrTo t) = t"
| "Elem t = t"

fun TypeName :: "rtype \<Rightarrow> string" where
  "TypeName (Defined pkg n) = n"
| "TypeName _ = []"

text \<open>
  A value of the interface type \<open>error\<close>: the nil interface, an
  \<open>InvokeResponse_Error\<close> held by value, a \<open>*InvokeResponse_Error\<close> (whose pointer may
  itself be nil although the interface holding it is not), or a value of any other
  dynamic type together with the string its \<open>Error()\<close> method returns (a method that
  panics is not described). A pointer is an option: \<open>None\<close> is the nil pointer.
\<close>

datatype 'f error_value =
    NilError
  | ByValue "'f InvokeResponse_Error"
  | ByPointer "'f InvokeResponse_Error option"
  | OtherError rtype string

fun errorName :: "rtype \<Rightarrow> string" where
  "errorName t = (if isPtr t then TypeName (Elem t) else TypeName t)"

fun FromError :: "'f error_value \<Rightarrow> 'f InvokeResponse_Error option" where
  "FromError NilError = None"
| "FromError (ByValue ive) = Some ive"
| "FromError (ByPointer ive) = ive"
| "FromError (OtherError t msg) =
     Some \<lparr>Message = msg, Type = errorName t, StackTrace = [], ShouldExit = False\<rparr>"

section \<open>The host: files and the archive sink\<close>

text \<open>
  Go strings and byte slices are both byte sequences: \<open>string\<close>. The errors the tool
  can meet are values of one datatype.
\<close>

datatype error =
    ReadFileError string
  | CreateFileError string
  | ErrAlgorithm
  | WriteToDirectory
  | WriteToClosedFile
  | ZipWriteError
  | ConfigError string
  | ServiceError string

text \<open>
  What the builder reads from outside: the readable files with their contents when the
  build starts (\<open>ioutil.ReadFile\<close>), the paths \<open>os.Create\<close> can open, and the calls on
  the zip writer that report an error (counted from 0 over \<open>CreateHeader\<close> and \<open>Write\<close>:
  a write error of the sink, or a header the format cannot hold). Paths are not files:
  \<open>sameFile\<close> says which paths name one file (other spellings, links). The file the zip
  writer writes to changes while the build reads its inputs: \<open>sink\<close> holds the paths that
  name that file (none when the writer writes to memory), and \<open>flushed n\<close> is what that
  file holds once the writer has made \<open>n\<close> calls, which depends on its buffering.
\<close>

record host =
  files :: "string \<rightharpoonup> string"
  creatable :: "string \<Rightarrow> bool"
  fault :: "nat \<Rightarrow> bool"
  sameFile :: "string \<Rightarrow> string \<Rightarrow> bool"
  sink :: "string \<Rightarrow> bool"
  flushed :: "nat \<Rightarrow> string"

definition hasSlashSuffix :: "string \<Rightarrow> bool" where
  "hasSlashSuffix p = (p \<noteq> [] \<and> last p = CHR ''/'')"

text \<open>
  \<open>ioutil.ReadFile\<close>. A path that ends in a separator names a directory, whose read
  fails, or does not resolve at all; so such a path is never read, whatever \<open>files\<close> says.
\<close>

definition ReadFile :: "host \<Rightarrow> string \<Rightarrow> error + string" where
  "ReadFile h p =
     (if hasSlashSuffix p then Inl (ReadFileError p)
      else case files h p of None \<Rightarrow> Inl (ReadFileError p) | Some d \<Rightarrow> Inr d)"

text \<open>
  \<open>filepath.Base\<close> with the separator \<open>/\<close>: the empty path gives \<open>.\<close>; trailing
  separators are stripped; the last element is what follows the last separator; a
  path of separators only gives the separator.
\<close>

definition stripSlashes :: "string \<Rightarrow> string" where
  "stripSlashes p = rev (dropWhile (\<lambda>c. c = CHR ''/'') (rev p))"

definition lastElement :: "string \<Rightarrow> string" where
  "lastElement p = rev (takeWhile (\<lambda>c. c \<noteq> CHR ''/'') (rev p))"

definition Base :: "string \<Rightarrow> string" where
  "Base p =
     (if p = [] then ''.''
      else if lastElement (stripSlashes p) = [] then ''/''
      else lastElement (stripSlashes p))"

section \<open>archive/zip as the builder uses it\<close>

text \<open>
  The fields of \<open>zip.FileHeader\<close> that the builder sets or that \<open>CreateHeader\<close> and
  \<open>SetMode\<close> change on its behalf; a struct literal leaves the others zero.
\<close>

record FileHeader =
  Name :: string
  CreatorVersion :: "16 word"
  Method :: "16 word"
  ExternalAttrs :: "32 word"

definition Store :: "16 word" where "Store = 0"
definition Deflate :: "16 word" where "Deflate = 8"
definition creatorUnix :: "16 word" where "creatorUnix = 3"
definition zipVersion20 :: "16 word" where "zipVersion20 = 20"

text \<open>The bits of \<open>os.FileMode\<close> and of a Unix \<open>st_mode\<close>, and the MS-DOS attributes.\<close>

definition ModeDir :: "32 word" where "ModeDir = push_bit 31 1"
definition ModeSymlink :: "32 word" where "ModeSymlink = push_bit 27 1"
definition ModeDevice :: "32 word" where "ModeDevice = push_bit 26 1"
definition ModeNamedPipe :: "32 word" where "ModeNamedPipe = push_bit 25 1"
definition ModeSocket :: "32 word" where "ModeSocket = push_bit 24 1"
definition ModeSetuid :: "32 word" where "ModeSetuid = push_bit 23 1"
definition ModeSetgid :: "32 word" where "ModeSetgid = push_bit 22 1"
definition ModeCharDevice :: "32 word" where "ModeCharDevice = push_bit 21 1"
definition ModeSticky :: "32 word" where "ModeSticky = push_bit 20 1"
definition ModeIrregular :: "32 word" where "ModeIrregular = push_bit 19 1"

definition ModeType :: "32 word" where
  "ModeType = ModeDir OR ModeSymlink OR ModeNamedPipe OR ModeSocket OR ModeDevice
     OR ModeCharDevice OR ModeIrregular"

definition s_IFMT :: "32 word" where "s_IFMT = 0xf000"
definition s_IFSOCK :: "32 word" where "s_IFSOCK = 0xc000"
definition s_IFLNK :: "32 word" where "s_IFLNK = 0xa000"
definition s_IFREG :: "32 word" where "s_IFREG = 0x8000"
definition s_IFBLK :: "32 word" where "s_IFBLK = 0x6000"
definition s_IFDIR :: "32 word" where "s_IFDIR = 0x4000"
definition s_IFCHR :: "32 word" where "s_IFCHR = 0x2000"
definition s_IFIFO :: "32 word" where "s_IFIFO = 0x1000"
definition s_ISUID :: "32 word" where "s_ISUID = 0x800"
definition s_ISGID :: "32 word" where "s_ISGID = 0x400"
definition s_ISVTX :: "32 word" where "s_ISVTX = 0x200"
definition msdosDir :: "32 word" where "msdosDir = 0x10"
definition msdosReadOnly :: "32 word" where "msdosReadOnly = 0x01"

text \<open>The permission bits, octal 0777, 0755 and 0200.\<close>

definition perm_0777 :: "32 word" where "perm_0777 = 0x1FF"
definition perm_0755 :: "32 word" where "perm_0755 = 0x1ED"
definition perm_0200 :: "32 word" where "perm_0200 = 0x80"

definition fileModeToUnixMode :: "32 word \<Rightarrow> 32 word" where
  "fileModeToUnixMode mode =
     (let t = mode AND ModeType;
          m0 = (if t = ModeDir then s_IFDIR
                else if t = ModeSymlink then s_IFLNK
                else if t = ModeNamedPipe then s_IFIFO
                else if t = ModeSocket then s_IFSOCK
                else if t = ModeDevice then s_IFBLK
                else if t = (ModeDevice OR ModeCharDevice) then s_IFCHR
                else s_IFREG);
          m1 = (if mode AND ModeSetuid \<noteq> 0 then m0 OR s_ISUID else m0);
          m2 = (if mode AND ModeSetgid \<noteq> 0 then m1 OR s_ISGID else m1);
          m3 = (if mode AND ModeSticky \<noteq> 0 then m2 OR s_ISVTX else m2)
      in m3 OR (mode AND perm_0777))"

definition SetMode :: "32 word \<Rightarrow> FileHeader \<Rightarrow> FileHeader" where
  "SetMode mode fh =
     (let a0 = push_bit 16 (fileModeToUnixMode mode);
          a1 = (if mode AND ModeDir \<noteq> 0 then a0 OR msdosDir else a0);
          a2 = (if mode AND perm_0200 = 0 then a1 OR msdosReadOnly else a1)
      in fh\<lparr>CreatorVersion := (CreatorVersion fh AND 0xff) OR push_bit 8 creatorUnix,
            ExternalAttrs := a2\<rparr>)"

text \<open>
  An archive entry is its header and the bytes written to it. The writer keeps the
  entries in order, counts its calls, and remembers whether a call has reported an
  error (from then on its output is not described) and whether it has been closed.
\<close>

record entry =
  header :: FileHeader
  content :: string

record Writer =
  dir :: "entry list"
  calls :: nat
  failed :: bool
  closed :: bool

definition NewWriter :: Writer where
  "NewWriter = \<lparr>dir = [], calls = 0, failed = False, closed = False\<rparr>"

text \<open>
  \<open>CreateHeader\<close> stamps the low byte of the creator version. A name that ends in a
  slash is a directory: its method becomes Store and its writer accepts no bytes.
  Any other entry needs a registered compressor for its method.
\<close>

definition stamp :: "FileHeader \<Rightarrow> FileHeader" where
  "stamp fh =
     fh\<lparr>CreatorVersion := (CreatorVersion fh AND 0xff00) OR zipVersion20,
        Method := (if hasSlashSuffix (Name fh) then Store else Method fh)\<rparr>"

definition CreateHeader :: "host \<Rightarrow> Writer \<Rightarrow> FileHeader \<Rightarrow> Writer \<times> error option" where
  "CreateHeader h w fh =
     (if \<not> hasSlashSuffix (Name fh) \<and> Method fh \<noteq> Store \<and> Method fh \<noteq> Deflate
      then (w, Some ErrAlgorithm)
      else if fault h (calls w)
      then (w\<lparr>calls := Suc (calls w), failed := True\<rparr>, Some ZipWriteError)
      else (w\<lparr>calls := Suc (calls w),
              dir := dir w @ [\<lparr>header = stamp fh, content = []\<rparr>]\<rparr>, None))"

text \<open>\<open>Create\<close> is \<open>CreateHeader\<close> on a header with the name and the method Deflate.\<close>

definition Create :: "host \<Rightarrow> Writer \<Rightarrow> string \<Rightarrow> Writer \<times> error option" where
  "Create h w name =
     CreateHeader h w \<lparr>Name = name, CreatorVersion = 0, Method = Deflate, ExternalAttrs = 0\<rparr>"

text \<open>
  The builder writes to each entry right after creating it, so \<open>Write\<close> is on the
  entry created last (with no entry there is nothing to write to). The writer of a
  directory entry accepts only the empty write.
\<close>

definition Write :: "host \<Rightarrow> Writer \<Rightarrow> string \<Rightarrow> Writer \<times> error option" where
  "Write h w b =
     (if dir w = [] then (w, Some WriteToClosedFile)
      else if hasSlashSuffix (Name (header (last (dir w))))
      then (if b = [] then (w, None) else (w, Some WriteToDirectory))
      else if fault h (calls w)
      then (w\<lparr>calls := Suc (calls w), failed := True\<rparr>, Some ZipWriteError)
      else (w\<lparr>calls := Suc (calls w),
              dir := butlast (dir w) @
                [(last (dir w))\<lparr>content := content (last (dir w)) @ b\<rparr>]\<rparr>, None))"

definition Close :: "Writer \<Rightarrow> Writer" where
  "Close w = w\<lparr>closed := True\<rparr>"

text \<open>
  \<open>FileHeader.Mode\<close>, by which a reader of the archive learns the permission and kind
  of an entry: from the high half of the external attributes when the creator is Unix
  or macOS, from the MS-DOS attributes when it is FAT, NTFS or VFAT.
\<close>

definition creatorFAT :: "16 word" where "creatorFAT = 0"
definition creatorNTFS :: "16 word" where "creatorNTFS = 11"
definition creatorVFAT :: "16 word" where "creatorVFAT = 14"
definition creatorMacOSX :: "16 word" where "creatorMacOSX = 19"

definition unixModeToFileMode :: "32 word \<Rightarrow> 32 word" where
  "unixModeToFileMode m =
     (let t = m AND s_IFMT;
          k = (if t = s_IFBLK then ModeDevice
               else if t = s_IFCHR then ModeDevice OR ModeCharDevice
               else if t = s_IFDIR then ModeDir
               else if t = s_IFIFO then ModeNamedPipe
               else if t = s_IFLNK then ModeSymlink
               else if t = s_IFSOCK then ModeSocket
               else 0);
          m0 = (m AND perm_0777) OR k;
          m1 = (if m AND s_ISGID \<noteq> 0 then m0 OR ModeSetgid else m0);
          m2 = (if m AND s_ISUID \<noteq> 0 then m1 OR ModeSetuid else m1)
      in if m AND s_ISVTX \<noteq> 0 then m2 OR ModeSticky else m2)"

definition msdosModeToFileMode :: "32 word \<Rightarrow> 32 word" where
  "msdosModeToFileMode m =
     (let mode = (if m AND msdosDir \<noteq> 0 then ModeDir OR perm_0777 else 0x1B6)
      in if m AND msdosReadOnly \<noteq> 0 then mode AND NOT 0x92 else mode)"

definition Mode :: "FileHeader \<Rightarrow> 32 word" where
  "Mode fh =
     (let c = drop_bit 8 (CreatorVersion fh);
          mode = (if c = creatorUnix \<or> c = creatorMacOSX
                  then unixModeToFileMode (drop_bit 16 (ExternalAttrs fh))
                  else if c = creatorNTFS \<or> c = creatorVFAT \<or> c = creatorFAT
                  then msdosModeToFileMode (ExternalAttrs fh)
                  else 0)
      in if hasSlashSuffix (Name fh) then mode OR ModeDir else mode)"

section \<open>The archive builder\<close>

definition bootstrap :: string where
  "bootstrap = ''bootstrap''"

definition linkHeader :: FileHeader where
  "linkHeader =
     SetMode (perm_0755 OR ModeSymlink)
       \<lparr>Name = bootstrap, CreatorVersion = 0, Method = Deflate, ExternalAttrs = 0\<rparr>"

definition exeHeader :: "string \<Rightarrow> FileHeader" where
  "exeHeader pathInZip =
     \<lparr>Name = pathInZip, CreatorVersion = push_bit 8 3, Method = Deflate,
      ExternalAttrs = push_bit 16 perm_0777\<rparr>"

text \<open>
  \<open>writeExe\<close> in two steps: \<open>writeLink\<close> is its conditional block, which adds the
  symbolic link unless the name in the archive is already the bootstrap name.
\<close>

definition writeLink :: "host \<Rightarrow> Writer \<Rightarrow> string \<Rightarrow> Writer \<times> error option" where
  "writeLink h w pathInZip =
     (if pathInZip \<noteq> bootstrap
      then (case CreateHeader h w linkHeader of
              (w1, Some e) \<Rightarrow> (w1, Some e)
            | (w1, None) \<Rightarrow> Write h w1 pathInZip)
      else (w, None))"

definition writeExe :: "host \<Rightarrow> Writer \<Rightarrow> string \<Rightarrow> string \<Rightarrow> Writer \<times> error option" where
  "writeExe h w pathInZip data =
     (case writeLink h w pathInZip of
        (w1, Some e) \<Rightarrow> (w1, Some e)
      | (w1, None) \<Rightarrow>
          (case CreateHeader h w1 (exeHeader pathInZip) of
             (w2, Some e) \<Rightarrow> (w2, Some e)
           | (w2, None) \<Rightarrow> Write h w2 data))"

text \<open>
  The file system as a read finds it once the writer has made \<open>n\<close> calls: a path that
  names the file being written reads what has been flushed to it by then.
\<close>

definition seen :: "host \<Rightarrow> nat \<Rightarrow> host" where
  "seen h n = h\<lparr>files := (\<lambda>p. if sink h p then Some (flushed h n) else files h p)\<rparr>"

text \<open>
  The loop of \<open>compressExeAndArgs\<close> over the auxiliary paths. Each file is read after its
  entry has been created, while the archive is being written.
\<close>

fun writeArgs :: "host \<Rightarrow> Writer \<Rightarrow> string list \<Rightarrow> Writer \<times> error option" where
  "writeArgs h w [] = (w, None)"
| "writeArgs h w (arg # args) =
     (case Create h w arg of
        (w1, Some e) \<Rightarrow> (w1, Some e)
      | (w1, None) \<Rightarrow>
          (case ReadFile (seen h (calls w1)) arg of
             Inl e \<Rightarrow> (w1, Some e)
           | Inr data \<Rightarrow>
               (case Write h w1 data of
                  (w2, Some e) \<Rightarrow> (w2, Some e)
                | (w2, None) \<Rightarrow> writeArgs h w2 args)))"

text \<open>
  \<open>compressExeAndArgs\<close> returns the error and leaves the writer, closed by the deferred
  \<open>Close\<close> on every path (the error of \<open>Close\<close> itself is dropped by the source). The
  executable is read before the writer has written anything.
\<close>

definition compressExeAndArgs :: "host \<Rightarrow> string \<Rightarrow> string list \<Rightarrow> Writer \<times> error option" where
  "compressExeAndArgs h exePath args =
     (case ReadFile h exePath of
        Inl e \<Rightarrow> (Close NewWriter, Some e)
      | Inr data \<Rightarrow>
          (case writeExe h NewWriter (Base exePath) data of
             (w1, Some e) \<Rightarrow> (Close w1, Some e)
           | (w1, None) \<Rightarrow>
               (case writeArgs h w1 args of (w2, r) \<Rightarrow> (Close w2, r))))"

text \<open>
  The method an entry gets by its name: a directory name is stored, any other name
  created by the builder is deflated.
\<close>

definition methodByName :: "FileHeader \<Rightarrow> bool" where
  "methodByName fh = (Method fh = (if hasSlashSuffix (Name fh) then Store else Deflate))"

text \<open>
  \<open>os.Create\<close> on a path that can be opened: the file it names is created or truncated,
  under every path that names it, and is from now on the file being written.
\<close>

definition namesFile :: "host \<Rightarrow> string \<Rightarrow> string \<Rightarrow> bool" where
  "namesFile h name p = (p = name \<or> sameFile h p name)"

definition os_Create :: "host \<Rightarrow> string \<Rightarrow> host" where
  "os_Create h name =
     h\<lparr>files := (\<lambda>p. if namesFile h name p then Some [] else files h p),
       sink := namesFile h name\<rparr>"

text \<open>
  \<open>compressExeAndArgsToFile\<close>: the output is created before any input is read. The
  result says whether the output file exists afterwards, and with which archive.
\<close>

definition compressExeAndArgsToFile ::
  "host \<Rightarrow> string \<Rightarrow> string \<Rightarrow> string list \<Rightarrow> Writer option \<times> error option" where
  "compressExeAndArgsToFile h outZipPath exePath args =
     (if \<not> creatable h outZipPath then (None, Some (CreateFileError outZipPath))
      else (case compressExeAndArgs (os_Create h outZipPath) exePath args of
              (w, r) \<Rightarrow> (Some w, r)))"

section \<open>The deploy client\<close>

text \<open>
  The result of one \<open>GetFunction\<close> call: a transport error, or an output whose
  \<open>Configuration\<close> pointer is nil, or an output with a configuration, of which
  \<open>LastUpdateStatus\<close> (a string type) and \<open>LastUpdateStatusReason\<close> (a \<open>*string\<close>) are
  read.
\<close>

datatype fetch =
    FetchError error
  | NoConfiguration
  | Configuration string "string option"

text \<open>
  The remote side: the outcome of loading the default configuration, the response to
  \<open>UpdateFunctionCode\<close> for a function name and an archive (an error, or
  \<open>LastUpdateStatus\<close> and \<open>StateReason\<close>), and the response to the n-th \<open>GetFunction\<close>
  for a function name.
\<close>

record service =
  loadConfig :: "error option"
  updateCode :: "string \<Rightarrow> entry list \<Rightarrow> error + (string \<times> string option)"
  getFunction :: "string \<Rightarrow> nat \<Rightarrow> fetch"

definition LastUpdateStatusSuccessful :: string where
  "LastUpdateStatusSuccessful = ''Successful''"
definition LastUpdateStatusFailed :: string where
  "LastUpdateStatusFailed = ''Failed''"
definition LastUpdateStatusInProgress :: string where
  "LastUpdateStatusInProgress = ''InProgress''"

definition deref :: "string option \<Rightarrow> string" where
  "deref s = (case s of None \<Rightarrow> ''<nil>'' | Some v \<Rightarrow> v)"

text \<open>The message of \<open>log.Printf("state[%s] reason[%s]", status, deref(statusReason))\<close>.\<close>

definition report :: "string \<Rightarrow> string option \<Rightarrow> string" where
  "report status statusReason = ''state['' @ status @ ''] reason['' @ deref statusReason @ '']''"

text \<open>
  How a call ends: it returns its error (or nil), or it panics on the nil
  \<open>Configuration\<close>. A run of the deploy client is the reports it logged, the number of
  \<open>GetFunction\<close> calls it made, and how it ended.
\<close>

datatype outcome = Returned "error option" | Panicked

record run =
  reports :: "string list"
  fetches :: nat
  result :: outcome

text \<open>
  The loop of \<open>updateFunctionCode\<close>, entered with the status and reason at hand, the
  number of fetches made and the reports logged so far. It has no bound: where the
  status never leaves in-progress it does not return, and the value is \<open>None\<close>. The
  sleep between two fetches is not modelled.
\<close>

partial_function (option) poll ::
  "service \<Rightarrow> string \<Rightarrow> nat \<Rightarrow> string list \<Rightarrow> string \<Rightarrow> string option \<Rightarrow> run option" where
  "poll svc functionName n log status statusReason =
     (if status = LastUpdateStatusInProgress
      then (case getFunction svc functionName n of
              FetchError e \<Rightarrow>
                Some \<lparr>reports = log @ [report status statusReason], fetches = Suc n,
                      result = Returned (Some e)\<rparr>
            | NoConfiguration \<Rightarrow>
                Some \<lparr>reports = log @ [report status statusReason], fetches = Suc n,
                      result = Panicked\<rparr>
            | Configuration s r \<Rightarrow>
                poll svc functionName (Suc n) (log @ [report status statusReason]) s r)
      else Some \<lparr>reports = log @ [report status statusReason], fetches = n,
                 result = Returned None\<rparr>)"

declare poll.simps [code]

text \<open>
  \<open>updateFunctionCode\<close> builds the archive in a \<open>bytes.Buffer\<close>: the writer writes to
  memory, and no path names its sink.
\<close>

definition inMemory :: "host \<Rightarrow> host" where
  "inMemory h = h\<lparr>sink := (\<lambda>p. False)\<rparr>"

definition updateFunctionCode ::
  "host \<Rightarrow> service \<Rightarrow> string \<Rightarrow> string \<Rightarrow> string list \<Rightarrow> run option" where
  "updateFunctionCode h svc functionName exePath args =
     (case compressExeAndArgs (inMemory h) exePath args of
        (w, Some e) \<Rightarrow> Some \<lparr>reports = [], fetches = 0, result = Returned (Some e)\<rparr>
      | (w, None) \<Rightarrow>
          (case loadConfig svc of
             Some e \<Rightarrow> Some \<lparr>reports = [], fetches = 0, result = Returned (Some e)\<rparr>
           | None \<Rightarrow>
               (case updateCode svc functionName (dir w) of
                  Inl e \<Rightarrow> Some \<lparr>reports = [], fetches = 0, result = Returned (Some e)\<rparr>
                | Inr (status, statusReason) \<Rightarrow>
                    poll svc functionName 0 [] status statusReason)))"

section \<open>The compile adapter\<close>

text \<open>
  \<open>exec.Command("go", "build", "-o", out, in)\<close> with its environment set; \<open>environ\<close> is
  what \<open>os.Environ()\<close> returns and \<open>runCmd\<close> what \<open>cmd.Run()\<close> does with the command.
\<close>

record Cmd =
  Path :: string
  Args :: "string list"
  Env :: "string list"

definition goBuildCmd :: "string list \<Rightarrow> string \<Rightarrow> Cmd" where
  "goBuildCmd environ inp =
     \<lparr>Path = ''go'',
      Args = [''go'', ''build'', ''-o'', Base inp @ ''.exe'', inp],
      Env = [''GOOS=linux'', ''GOARCH=amd64''] @ environ\<rparr>"

definition goBuild :: "(Cmd \<Rightarrow> error option) \<Rightarrow> string list \<Rightarrow> string \<Rightarrow> string \<times> error option" where
  "goBuild runCmd environ inp = (Base inp @ ''.exe'', runCmd (goBuildCmd environ inp))"

text \<open>
  What the started process finds under a name. The documentation of \<open>exec.Cmd.Env\<close>:
  each entry is of the form key=value, and if Env contains duplicate environment keys,
  only the last value in the slice for each duplicate key is used. An entry without
  \<open>=\<close> binds nothing.
\<close>

definition envEntry :: "string \<Rightarrow> (string \<times> string) option" where
  "envEntry kv =
     (if CHR ''='' \<in> set kv
      then Some (takeWhile (\<lambda>c. c \<noteq> CHR ''='') kv, tl (dropWhile (\<lambda>c. c \<noteq> CHR ''='') kv))
      else None)"

definition childEnv :: "string list \<Rightarrow> string \<rightharpoonup> string" where
  "childEnv env = map_of (rev (List.map_filter envEntry env))"

section \<open>Function URL headers and query parameters as JSON\<close>

text \<open>\<open>strings.Join\<close>, and \<open>strings.Split\<close> for a separator of one byte.\<close>

fun Join :: "string list \<Rightarrow> string \<Rightarrow> string" where
  "Join [] sep = []"
| "Join [x] sep = x"
| "Join (x # y # ys) sep = x @ sep @ Join (y # ys) sep"

function Split :: "string \<Rightarrow> char \<Rightarrow> string list" where
  "Split s sep =
     (if sep \<in> set s
      then takeWhile (\<lambda>c. c \<noteq> sep) s # Split (tl (dropWhile (\<lambda>c. c \<noteq> sep) s)) sep
      else [s])"
  by pat_completeness auto
termination
proof (relation "measure (\<lambda>(s, sep). length s)")
  show "wf (measure (\<lambda>(s, sep). length s))" by simp
next
  fix s :: string and sep :: char
  assume "sep \<in> set s"
  then have "dropWhile (\<lambda>c. c \<noteq> sep) s \<noteq> []" by (simp add: dropWhile_eq_Nil_conv)
  then have "length (tl (dropWhile (\<lambda>c. c \<noteq> sep) s)) < length (dropWhile (\<lambda>c. c \<noteq> sep) s)"
    by simp
  also have "\<dots> \<le> length s" by (rule length_dropWhile_le)
  finally show "((tl (dropWhile (\<lambda>c. c \<noteq> sep) s), sep), (s, sep)) \<in> measure (\<lambda>(s, sep). length s)"
    by simp
qed

declare Split.simps [simp del]

text \<open>
  A JSON document, as \<open>json.Marshal\<close> writes it and \<open>json.Unmarshal\<close> reads it back. The
  strings in it are the strings the text denotes, after escaping and unescaping.
\<close>

datatype json =
    JNull
  | JBool bool
  | JNumber string
  | JString string
  | JArray "json list"
  | JObject "(string \<times> json) list"

text \<open>
  \<open>encoding/json\<close> on strings: string values encode as JSON strings coerced to valid
  UTF-8, replacing invalid bytes with the Unicode replacement rune. The encoder walks
  the string with \<open>utf8.DecodeRuneInString\<close>: \<open>runeSize\<close> is the width of the
  well-formed encoding at the head of the bytes, 0 where there is none (the rune error
  of width 1), and each such byte becomes U+FFFD, which reads back as three bytes.
\<close>

definition isCont :: "nat \<Rightarrow> bool" where
  "isCont b = (0x80 \<le> b \<and> b \<le> 0xBF)"

fun runeSize :: "nat list \<Rightarrow> nat" where
  "runeSize [] = 0"
| "runeSize (b0 # bs) =
     (if b0 < 0x80 then 1
      else if 0xC2 \<le> b0 \<and> b0 \<le> 0xDF
      then (case bs of b1 # _ \<Rightarrow> if isCont b1 then 2 else 0 | _ \<Rightarrow> 0)
      else if 0xE0 \<le> b0 \<and> b0 \<le> 0xEF
      then (case bs of
              b1 # b2 # _ \<Rightarrow>
                if (if b0 = 0xE0 then 0xA0 else 0x80) \<le> b1
                   \<and> b1 \<le> (if b0 = 0xED then 0x9F else 0xBF) \<and> isCont b2
                then 3 else 0
            | _ \<Rightarrow> 0)
      else if 0xF0 \<le> b0 \<and> b0 \<le> 0xF4
      then (case bs of
              b1 # b2 # b3 # _ \<Rightarrow>
                if (if b0 = 0xF0 then 0x90 else 0x80) \<le> b1
                   \<and> b1 \<le> (if b0 = 0xF4 then 0x8F else 0xBF) \<and> isCont b2 \<and> isCont b3
                then 4 else 0
            | _ \<Rightarrow> 0)
      else 0)"

definition DecodeRuneSize :: "string \<Rightarrow> nat" where
  "DecodeRuneSize s = runeSize (map of_char s)"

definition replacementChar :: string where
  "replacementChar = [CHR 0xEF, CHR 0xBF, CHR 0xBD]"

function coerceUTF8 :: "string \<Rightarrow> string" where
  "coerceUTF8 s =
     (if s = [] then []
      else if DecodeRuneSize s = 0 then replacementChar @ coerceUTF8 (tl s)
      else take (DecodeRuneSize s) s @ coerceUTF8 (drop (DecodeRuneSize s) s))"
  by pat_completeness auto
termination
  by (relation "measure length") auto

declare coerceUTF8.simps [simp del]

text \<open>\<open>utf8.ValidString\<close>.\<close>

function ValidString :: "string \<Rightarrow> bool" where
  "ValidString s =
     (if s = [] then True
      else if DecodeRuneSize s = 0 then False
      else ValidString (drop (DecodeRuneSize s) s))"
  by pat_completeness auto
termination
  by (relation "measure length") auto

declare ValidString.simps [simp del]

datatype unmarshal_error = UnmarshalTypeError

text \<open>
  \<open>commaSeperatedValues\<close>: marshalling joins the values and marshals the string;
  unmarshalling reads a string (a JSON null leaves the string empty, any other kind
  of value is a type error) and splits it.
\<close>

definition commaSeperatedValues_MarshalJSON :: "string list \<Rightarrow> json" where
  "commaSeperatedValues_MarshalJSON c = JString (coerceUTF8 (Join c '',''))"

definition commaSeperatedValues_UnmarshalJSON :: "json \<Rightarrow> unmarshal_error + string list" where
  "commaSeperatedValues_UnmarshalJSON b =
     (case b of
        JString s \<Rightarrow> Inr (Split s CHR '','')
      | JNull \<Rightarrow> Inr (Split [] CHR '','')
      | _ \<Rightarrow> Inl UnmarshalTypeError)"

text \<open>
  \<open>json.Marshal\<close> of a \<open>map[string]commaSeperatedValues\<close>: an object with the keys in
  sorted order, each key written as a string, each value by its \<open>MarshalJSON\<close>.
  \<open>json.Unmarshal\<close> into such a map: the members of an object are stored in order, a
  later duplicate replacing an earlier one, and the first member that fails ends the
  call; a JSON null leaves the map empty; any other kind of value is a type error.
\<close>

definition marshalMap :: "(string, string list) fmap \<Rightarrow> json" where
  "marshalMap m =
     JObject (map (\<lambda>(k, v). (coerceUTF8 k, commaSeperatedValues_MarshalJSON v))
               (sorted_list_of_fmap m))"

fun unmarshalMembers ::
  "(string \<times> json) list \<Rightarrow> (string, string list) fmap
     \<Rightarrow> unmarshal_error + (string, string list) fmap" where
  "unmarshalMembers [] m = Inr m"
| "unmarshalMembers ((k, b) # kvs) m =
     (case commaSeperatedValues_UnmarshalJSON b of
        Inl e \<Rightarrow> Inl e
      | Inr c \<Rightarrow> unmarshalMembers kvs (fmupd k c m))"

definition unmarshalMap :: "json \<Rightarrow> unmarshal_error + (string, string list) fmap" where
  "unmarshalMap b =
     (case b of
        JObject kvs \<Rightarrow> unmarshalMembers kvs fmempty
      | JNull \<Rightarrow> Inr fmempty
      | _ \<Rightarrow> Inl UnmarshalTypeError)"

text \<open>
  \<open>functionURLHeaders\<close> and \<open>functionURLValues\<close> have the same two methods: the map is
  copied into the intermediate map and that is marshalled; the document is unmarshalled
  into the intermediate map and that is copied into a fresh map.
\<close>

definition functionURLHeaders_MarshalJSON :: "(string, string list) fmap \<Rightarrow> json" where
  "functionURLHeaders_MarshalJSON f = marshalMap f"

definition functionURLHeaders_UnmarshalJSON ::
  "json \<Rightarrow> unmarshal_error + (string, string list) fmap" where
  "functionURLHeaders_UnmarshalJSON b =
     (case unmarshalMap b of Inl e \<Rightarrow> Inl e | Inr intermediate \<Rightarrow> Inr intermediate)"

definition functionURLValues_MarshalJSON :: "(string, string list) fmap \<Rightarrow> json" where
  "functionURLValues_MarshalJSON f = marshalMap f"

definition functionURLValues_UnmarshalJSON ::
  "json \<Rightarrow> unmarshal_error + (string, string list) fmap" where
  "functionURLValues_UnmarshalJSON b =
     (case unmarshalMap b of Inl e \<Rightarrow> Inl e | Inr intermediate \<Rightarrow> Inr intermediate)"

text \<open>
  The two conditions on a map of headers or query parameters: every value list is
  non-empty and none of its elements contains a comma; every key and every element is
  valid UTF-8.
\<close>

definition commaFree :: "(string, string list) fmap \<Rightarrow> bool" where
  "commaFree m = fmpred (\<lambda>k v. v \<noteq> [] \<and> list_all (\<lambda>x. CHR '','' \<notin> set x) v) m"

definition validUTF8 :: "(string, string list) fmap \<Rightarrow> bool" where
  "validUTF8 m = fmpred (\<lambda>k v. ValidString k \<and> list_all ValidString v) m"

section \<open>Example hosts and services\<close>

text \<open>
  A host with three readable files, all under the working directory, with a writer
  that never fails and writes to memory. Two paths name the same file when they have
  the same components, empty components and \<open>.\<close> left out, and are both absolute or both
  relative: \<open>./cfg.json\<close> and \<open>cfg.json\<close> are one file, and so are \<open>bin//handler\<close> and
  \<open>bin/handler\<close>.
\<close>

definition components :: "string \<Rightarrow> bool \<times> string list" where
  "components p =
     (take 1 p = ''/'', filter (\<lambda>c. c \<noteq> [] \<and> c \<noteq> ''.'') (Split p CHR ''/''))"

definition demo_host :: host where
  "demo_host =
     \<lparr>files = (\<lambda>p. if fst (components p) then None
                    else [[''bin'', ''handler''] \<mapsto> ''ELF'', [''bootstrap''] \<mapsto> ''ELF'',
                          [''cfg.json''] \<mapsto> ''{}''] (snd (components p))),
      creatable = (\<lambda>p. True), fault = (\<lambda>n. False),
      sameFile = (\<lambda>p q. components p = components q),
      sink = (\<lambda>p. False), flushed = (\<lambda>n. [])\<rparr>"

text \<open>
  A service that answers in-progress to the update and to the first fetch, and
  successful to the second.
\<close>

definition demo_service :: service where
  "demo_service =
     \<lparr>loadConfig = None,
      updateCode = (\<lambda>f zip. Inr (LastUpdateStatusInProgress, None)),
      getFunction = (\<lambda>f n. if n < 1 then Configuration LastUpdateStatusInProgress None
                             else Configuration LastUpdateStatusSuccessful (Some ''done''))\<rparr>"

text \<open>A service whose update request fails in transport.\<close>

definition down_service :: service where
  "down_service =
     \<lparr>loadConfig = None,
      updateCode = (\<lambda>f zip. Inl (ServiceError ''connection refused'')),
      getFunction = (\<lambda>f n. Configuration LastUpdateStatusSuccessful None)\<rparr>"

text \<open>A service on which the update settles as failed at the first fetch.\<close>

definition failing_service :: service where
  "failing_service =
     \<lparr>loadConfig = None,
      updateCode = (\<lambda>f zip. Inr (LastUpdateStatusInProgress, None)),
      getFunction = (\<lambda>f n. Configuration LastUpdateStatusFailed (Some ''bad handler''))\<rparr>"

text \<open>
  Two header maps: one with a two-valued header, and one whose only value is the byte
  FF, as a header value in Latin-1 would have it.
\<close>

definition demo_headers :: "(string, string list) fmap" where
  "demo_headers =
     fmupd ''Accept'' [''text/html'', ''*/*''] (fmupd ''Host'' [''example.org''] fmempty)"

definition latin1_headers :: "(string, string list) fmap" where
  "latin1_headers = fmupd ''X-Name'' [[CHR 0xFF]] fmempty"

section \<open>Properties of FromError\<close>

text \<open>
  Claim C9, as stated, at a nil \<open>*InvokeResponse_Error\<close> held in a non-nil interface
  value: the second type assertion succeeds and the nil pointer is returned, so the
  result is nil although the argument is not.
\<close>

theorem FromError_typed_nil_counterexample:
  "FromError (ByPointer None) = None \<and> ByPointer None \<noteq> (NilError :: unit error_value)"
  by simp

text \<open>
  Claim C9, amended: FromError returns nil exactly when its argument is the nil interface
  or a nil \<open>*InvokeResponse_Error\<close>; an \<open>InvokeResponse_Error\<close> held by value or by
  pointer comes back unchanged; for any other error the result's Message is the string
  of \<open>Error()\<close> and its Type is the name of the dynamic type, a pointer type giving the
  name of its element type.
\<close>

theorem FromError_spec:
  "(FromError err = None \<longleftrightarrow> err = NilError \<or> err = ByPointer None)
   \<and> FromError (ByValue ive) = Some ive
   \<and> FromError (ByPointer p) = p
   \<and> (\<exists>r. FromError (OtherError t msg) = Some r \<and> Message r = msg
        \<and> Type r = (case t of PtrTo u \<Rightarrow> TypeName u | _ \<Rightarrow> TypeName t))"
  by (cases err; cases t) auto

section \<open>Properties of the archive builder\<close>

lemmas zip_consts =
  perm_0755_def perm_0777_def perm_0200_def ModeSymlink_def ModeType_def ModeDir_def
  ModeDevice_def ModeNamedPipe_def ModeSocket_def ModeCharDevice_def ModeIrregular_def
  ModeSetuid_def ModeSetgid_def ModeSticky_def s_IFMT_def s_IFLNK_def s_IFBLK_def
  s_IFCHR_def s_IFDIR_def s_IFIFO_def s_IFSOCK_def s_IFREG_def s_ISGID_def s_ISUID_def
  s_ISVTX_def creatorUnix_def creatorMacOSX_def creatorFAT_def creatorNTFS_def
  creatorVFAT_def msdosDir_def msdosReadOnly_def zipVersion20_def Store_def Deflate_def

lemma bootstrap_no_slash: "\<not> hasSlashSuffix bootstrap"
  by (simp add: hasSlashSuffix_def bootstrap_def)

lemma stripSlashes_last: "stripSlashes p \<noteq> [] \<Longrightarrow> last (stripSlashes p) \<noteq> CHR ''/''"
  using hd_dropWhile [of "\<lambda>c. c = CHR ''/''" "rev p"]
  by (simp add: stripSlashes_def last_rev)

lemma stripSlashes_Nil: "stripSlashes p = [] \<Longrightarrow> p \<noteq> [] \<Longrightarrow> last p = CHR ''/''"
  using last_in_set [of p] by (simp add: stripSlashes_def dropWhile_eq_Nil_conv)

lemma lastElement_no_slash: "CHR ''/'' \<notin> set (lastElement p)"
  using set_takeWhileD [of "CHR ''/''" "\<lambda>c. c \<noteq> CHR ''/''" "rev p"]
  by (auto simp: lastElement_def)

lemma lastElement_Nil: "lastElement q = [] \<Longrightarrow> q \<noteq> [] \<Longrightarrow> last q = CHR ''/''"
  by (simp add: lastElement_def takeWhile_eq_Nil_iff hd_rev)

lemma Base_slash: "hasSlashSuffix (Base p) \<Longrightarrow> hasSlashSuffix p"
proof -
  assume a: "hasSlashSuffix (Base p)"
  show ?thesis
  proof (cases "p = []")
    case True
    with a show ?thesis by (simp add: Base_def hasSlashSuffix_def)
  next
    case False
    show ?thesis
    proof (cases "lastElement (stripSlashes p) = []")
      case True
      have "stripSlashes p = []"
        using True lastElement_Nil stripSlashes_last by blast
      then show ?thesis using False stripSlashes_Nil by (simp add: hasSlashSuffix_def)
    next
      case n: False
      then have "Base p = lastElement (stripSlashes p)" using False by (simp add: Base_def)
      with a n have "CHR ''/'' \<in> set (lastElement (stripSlashes p))"
        using last_in_set [of "lastElement (stripSlashes p)"] by (simp add: hasSlashSuffix_def)
      then show ?thesis using lastElement_no_slash by blast
    qed
  qed
qed

lemma ReadFile_no_slash: "ReadFile h p = Inr d \<Longrightarrow> \<not> hasSlashSuffix p"
  by (auto simp: ReadFile_def split: if_splits)

lemma ReadFile_seen: "\<not> sink h p \<Longrightarrow> ReadFile (seen h n) p = ReadFile h p"
  by (simp add: ReadFile_def seen_def)

lemma ReadFile_seen_ok: "\<not> isl (ReadFile h p) \<Longrightarrow> \<not> isl (ReadFile (seen h n) p)"
  by (auto simp: ReadFile_def seen_def split: if_splits option.splits)

lemma CreateHeader_ok:
  "CreateHeader h w fh = (w1, None) \<Longrightarrow> dir w1 = dir w @ [\<lparr>header = stamp fh, content = []\<rparr>]"
  by (auto simp: CreateHeader_def split: if_splits)

lemma Write_ok:
  "Write h w b = (w1, None) \<Longrightarrow> dir w = es @ [e] \<Longrightarrow> \<not> hasSlashSuffix (Name (header e)) \<Longrightarrow>
     dir w1 = es @ [e\<lparr>content := content e @ b\<rparr>]"
  by (auto simp: Write_def split: if_splits)

lemma Write_headers: "Write h w b = (w1, r) \<Longrightarrow> map header (dir w1) = map header (dir w)"
  by (cases "dir w" rule: rev_cases) (auto simp: Write_def split: if_splits)

lemma create_write:
  assumes "CreateHeader h w fh = (w1, None)" and "Write h w1 b = (w2, None)"
    and "\<not> hasSlashSuffix (Name fh)"
  shows "dir w2 = dir w @ [\<lparr>header = stamp fh, content = b\<rparr>]"
proof -
  have d: "dir w1 = dir w @ [\<lparr>header = stamp fh, content = []\<rparr>]"
    using assms(1) by (rule CreateHeader_ok)
  have "\<not> hasSlashSuffix (Name (header \<lparr>header = stamp fh, content = []\<rparr>))"
    using assms(3) by (simp add: stamp_def)
  from Write_ok [OF assms(2) d this] show ?thesis by simp
qed

lemma writeLink_ok:
  assumes "writeLink h w p = (w1, None)"
  shows "dir w1 = dir w @ (if p \<noteq> bootstrap then [\<lparr>header = stamp linkHeader, content = p\<rparr>] else [])"
proof (cases "p = bootstrap")
  case True
  with assms show ?thesis by (simp add: writeLink_def)
next
  case False
  from assms False obtain w0 where c: "CreateHeader h w linkHeader = (w0, None)"
    and wr: "Write h w0 p = (w1, None)"
    by (auto simp: writeLink_def split: prod.splits option.splits)
  have "\<not> hasSlashSuffix (Name linkHeader)"
    by (simp add: linkHeader_def SetMode_def Let_def bootstrap_no_slash)
  from create_write [OF c wr this] False show ?thesis by simp
qed

lemma writeExe_ok:
  assumes "writeExe h w p data = (w2, None)" and "\<not> hasSlashSuffix p"
  shows "dir w2 = dir w @ (if p \<noteq> bootstrap then [\<lparr>header = stamp linkHeader, content = p\<rparr>] else [])
                  @ [\<lparr>header = stamp (exeHeader p), content = data\<rparr>]"
proof -
  from assms(1) obtain w0 w1 where l: "writeLink h w p = (w0, None)"
    and c: "CreateHeader h w0 (exeHeader p) = (w1, None)"
    and wr: "Write h w1 data = (w2, None)"
    by (auto simp: writeExe_def split: prod.splits option.splits)
  have "\<not> hasSlashSuffix (Name (exeHeader p))" using assms(2) by (simp add: exeHeader_def)
  from create_write [OF c wr this] writeLink_ok [OF l] show ?thesis by simp
qed

lemma writeArgs_Deflate:
  "writeArgs h w args = (w1, None) \<Longrightarrow> \<forall>e\<in>set (dir w). Method (header e) = Deflate \<Longrightarrow>
     \<forall>e\<in>set (dir w1). Method (header e) = Deflate"
proof (induction args arbitrary: w)
  case Nil
  then show ?case by simp
next
  case (Cons arg args)
  from Cons.prems(1) obtain w0 data w2 where c: "Create h w arg = (w0, None)"
    and rd: "ReadFile (seen h (calls w0)) arg = Inr data" and wr: "Write h w0 data = (w2, None)"
    and rest: "writeArgs h w2 args = (w1, None)"
    by (auto split: prod.splits option.splits sum.splits)
  from c have "dir w0 = dir w @ [\<lparr>header = stamp \<lparr>Name = arg, CreatorVersion = 0, Method = Deflate, ExternalAttrs = 0\<rparr>, content = []\<rparr>]"
    unfolding Create_def by (rule CreateHeader_ok)
  moreover have "\<not> hasSlashSuffix arg" using rd by (rule ReadFile_no_slash)
  ultimately have "\<forall>e\<in>set (dir w0). Method (header e) = Deflate"
    using Cons.prems(2) by (simp add: stamp_def)
  then have "\<forall>e\<in>set (map header (dir w0)). Method e = Deflate" by simp
  then have "\<forall>e\<in>set (map header (dir w2)). Method e = Deflate"
    using Write_headers [OF wr] by simp
  then have "\<forall>e\<in>set (dir w2). Method (header e) = Deflate" by simp
  from Cons.IH [OF rest this] show ?case .
qed

lemma CreateHeader_headers:
  "CreateHeader h w fh = (w1, r) \<Longrightarrow> \<exists>hs. map header (dir w1) = map header (dir w) @ hs"
  by (auto simp: CreateHeader_def split: if_splits)

lemma writeLink_first:
  assumes "writeLink h NewWriter p = (w1, r)" and "p \<noteq> bootstrap"
  shows "map header (dir w1) = [] \<and> r \<noteq> None \<or> map header (dir w1) = [stamp linkHeader]"
proof -
  obtain w0 r0 where c: "CreateHeader h NewWriter linkHeader = (w0, r0)"
    by (cases "CreateHeader h NewWriter linkHeader")
  show ?thesis
  proof (cases r0)
    case (Some e)
    with assms c have "w1 = w0" "r = Some e" by (simp_all add: writeLink_def)
    moreover from c Some have "dir w0 = []"
      by (auto simp: CreateHeader_def NewWriter_def split: if_splits)
    ultimately show ?thesis by simp
  next
    case None
    with assms c have wr: "Write h w0 p = (w1, r)" by (simp add: writeLink_def)
    from CreateHeader_ok c None have "dir w0 = dir NewWriter @ [\<lparr>header = stamp linkHeader, content = []\<rparr>]"
      by blast
    then have "map header (dir w0) = [stamp linkHeader]" by (simp add: NewWriter_def)
    with Write_headers [OF wr] show ?thesis by simp
  qed
qed

lemma writeArgs_headers:
  "writeArgs h w args = (w1, r) \<Longrightarrow> \<exists>hs. map header (dir w1) = map header (dir w) @ hs"
proof (induction args arbitrary: w)
  case Nil
  then show ?case by simp
next
  case (Cons arg args)
  obtain w0 r0 where c: "Create h w arg = (w0, r0)" by (cases "Create h w arg")
  from c CreateHeader_headers obtain hs where d: "map header (dir w0) = map header (dir w) @ hs"
    unfolding Create_def by blast
  show ?case
  proof (cases r0)
    case (Some e)
    with Cons.prems c have "w1 = w0" by simp
    with d show ?thesis by blast
  next
    case None
    show ?thesis
    proof (cases "ReadFile (seen h (calls w0)) arg")
      case (Inl e)
      with Cons.prems c None have "w1 = w0" by simp
      with d show ?thesis by blast
    next
      case (Inr data)
      obtain w2 r2 where wr: "Write h w0 data = (w2, r2)" by (cases "Write h w0 data")
      from Write_headers [OF wr] d have d2: "map header (dir w2) = map header (dir w) @ hs" by simp
      show ?thesis
      proof (cases r2)
        case (Some e)
        with Cons.prems c None Inr wr have "w1 = w2" by simp
        with d2 show ?thesis by blast
      next
        case n2: None
        with Cons.prems c None Inr wr have "writeArgs h w2 args = (w1, r)" by simp
        from Cons.IH [OF this] d2 show ?thesis by auto
      qed
    qed
  qed
qed

lemma compress_first_header:
  assumes "compressExeAndArgs h exePath args = (w, r)" and "Base exePath \<noteq> bootstrap"
  shows "dir w = [] \<and> r \<noteq> None \<or> (\<exists>hs. map header (dir w) = stamp linkHeader # hs)"
proof (cases "ReadFile h exePath")
  case (Inl e)
  with assms(1) show ?thesis by (auto simp: compressExeAndArgs_def Close_def NewWriter_def)
next
  case (Inr data)
  obtain w1 r1 where we: "writeExe h NewWriter (Base exePath) data = (w1, r1)"
    by (cases "writeExe h NewWriter (Base exePath) data")
  obtain w0 r0 where l: "writeLink h NewWriter (Base exePath) = (w0, r0)"
    by (cases "writeLink h NewWriter (Base exePath)")
  have f: "map header (dir w0) = [] \<and> r0 \<noteq> None \<or> map header (dir w0) = [stamp linkHeader]"
    using l assms(2) by (rule writeLink_first)
  have e1: "dir w1 = [] \<and> r1 \<noteq> None \<or> (\<exists>hs. map header (dir w1) = stamp linkHeader # hs)"
  proof (cases r0)
    case (Some e)
    with we l have "w1 = w0" "r1 = Some e" by (simp_all add: writeExe_def)
    with f show ?thesis by auto
  next
    case None
    with f have h0: "map header (dir w0) = [stamp linkHeader]" by simp
    obtain w2 r2 where c: "CreateHeader h w0 (exeHeader (Base exePath)) = (w2, r2)"
      by (cases "CreateHeader h w0 (exeHeader (Base exePath))")
    from CreateHeader_headers [OF c] h0 obtain hs where h2: "map header (dir w2) = stamp linkHeader # hs"
      by auto
    show ?thesis
    proof (cases r2)
      case (Some e)
      with we l None c have "w1 = w2" by (simp add: writeExe_def)
      with h2 show ?thesis by simp
    next
      case n2: None
      with we l None c have "Write h w2 data = (w1, r1)" by (simp add: writeExe_def)
      from Write_headers [OF this] h2 show ?thesis by simp
    qed
  qed
  show ?thesis
  proof (cases r1)
    case (Some e)
    with assms(1) Inr we have "w = Close w1" "r = r1" by (simp_all add: compressExeAndArgs_def)
    with e1 show ?thesis by (simp add: Close_def)
  next
    case None
    with e1 obtain hs where h1: "map header (dir w1) = stamp linkHeader # hs" by auto
    obtain w2 r2 where wa: "writeArgs h w1 args = (w2, r2)" by (cases "writeArgs h w1 args")
    with assms(1) Inr we None have "w = Close w2" by (simp add: compressExeAndArgs_def)
    moreover from writeArgs_headers [OF wa] h1 have "\<exists>hs. map header (dir w2) = stamp linkHeader # hs"
      by auto
    ultimately show ?thesis by (simp add: Close_def)
  qed
qed

lemma Mode_link: "Mode (stamp linkHeader) = perm_0755 OR ModeSymlink"
  by (simp add: Mode_def stamp_def linkHeader_def SetMode_def fileModeToUnixMode_def
      unixModeToFileMode_def Let_def bootstrap_no_slash zip_consts)

lemma Mode_exe: "\<not> hasSlashSuffix p \<Longrightarrow> Mode (stamp (exeHeader p)) = perm_0777"
  by (simp add: Mode_def stamp_def exeHeader_def unixModeToFileMode_def Let_def zip_consts)

lemma Name_link: "Name (stamp linkHeader) = bootstrap"
  by (simp add: stamp_def linkHeader_def SetMode_def Let_def)

lemma Method_link: "Method (stamp linkHeader) = Deflate"
  by (simp add: stamp_def linkHeader_def SetMode_def Let_def bootstrap_no_slash)

lemma compress_ok:
  assumes "compressExeAndArgs h exePath args = (w, None)"
  shows "\<exists>data w1 w2. ReadFile h exePath = Inr data
           \<and> writeExe h NewWriter (Base exePath) data = (w1, None)
           \<and> writeArgs h w1 args = (w2, None) \<and> w = Close w2"
  using assms
  by (auto simp: compressExeAndArgs_def split: sum.splits prod.splits option.splits)

lemma compress_entries:
  assumes "compressExeAndArgs h exePath [] = (w, None)"
  shows "\<exists>data. ReadFile h exePath = Inr data \<and>
           dir w = (if Base exePath \<noteq> bootstrap
                    then [\<lparr>header = stamp linkHeader, content = Base exePath\<rparr>] else [])
                   @ [\<lparr>header = stamp (exeHeader (Base exePath)), content = data\<rparr>]"
proof -
  from compress_ok [OF assms] obtain data w1 where rd: "ReadFile h exePath = Inr data"
    and we: "writeExe h NewWriter (Base exePath) data = (w1, None)" and w: "w = Close w1"
    by auto
  have "\<not> hasSlashSuffix (Base exePath)"
    using ReadFile_no_slash [OF rd] Base_slash by blast
  from writeExe_ok [OF we this] rd w show ?thesis
    by (simp add: NewWriter_def Close_def)
qed

text \<open>
  A build returns no error when every input can be read and no call on the zip writer
  fails.
\<close>

lemma writeExe_succeeds:
  "\<forall>n. \<not> fault h n \<Longrightarrow> \<not> hasSlashSuffix p \<Longrightarrow> snd (writeExe h w p data) = None"
  by (simp add: writeExe_def writeLink_def CreateHeader_def Write_def linkHeader_def
      exeHeader_def SetMode_def stamp_def Let_def bootstrap_no_slash Deflate_def Store_def)

lemma Create_succeeds:
  assumes "\<not> fault h (calls w)"
  shows "\<exists>w1. Create h w name = (w1, None)
           \<and> dir w1 = dir w @ [\<lparr>header = stamp \<lparr>Name = name, CreatorVersion = 0,
                                   Method = Deflate, ExternalAttrs = 0\<rparr>, content = []\<rparr>]"
  using assms by (simp add: Create_def CreateHeader_def Deflate_def Store_def)

lemma Write_succeeds:
  assumes "\<not> fault h (calls w)" and "dir w = es @ [e]" and "\<not> hasSlashSuffix (Name (header e))"
  shows "\<exists>w1. Write h w b = (w1, None)"
  using assms by (simp add: Write_def)

lemma writeArgs_succeeds:
  "\<forall>n. \<not> fault h n \<Longrightarrow> \<forall>p\<in>set args. \<not> isl (ReadFile h p) \<Longrightarrow> snd (writeArgs h w args) = None"
proof (induction args arbitrary: w)
  case Nil
  then show ?case by simp
next
  case (Cons arg args)
  from Cons.prems(1) have nf: "\<And>n. \<not> fault h n" by simp
  from Create_succeeds [OF nf, of w arg] obtain w0 where c: "Create h w arg = (w0, None)"
    and d: "dir w0 = dir w @ [\<lparr>header = stamp \<lparr>Name = arg, CreatorVersion = 0,
                                   Method = Deflate, ExternalAttrs = 0\<rparr>, content = []\<rparr>]"
    by blast
  from Cons.prems(2) have "\<not> isl (ReadFile h arg)" by simp
  then have "\<not> isl (ReadFile (seen h (calls w0)) arg)" by (rule ReadFile_seen_ok)
  then obtain data where rd: "ReadFile (seen h (calls w0)) arg = Inr data"
    by (cases "ReadFile (seen h (calls w0)) arg") auto
  then have ns: "\<not> hasSlashSuffix arg" by (rule ReadFile_no_slash)
  then have "\<not> hasSlashSuffix (Name (header \<lparr>header = stamp \<lparr>Name = arg, CreatorVersion = 0,
                                   Method = Deflate, ExternalAttrs = 0\<rparr>, content = []\<rparr>))"
    by (simp add: stamp_def)
  from Write_succeeds [OF nf d this, of data] obtain w2 where wr: "Write h w0 data = (w2, None)"
    by blast
  from Cons.prems have "snd (writeArgs h w2 args) = None" by (intro Cons.IH) simp_all
  with c rd wr show ?case by simp
qed

lemma compressExeAndArgs_succeeds:
  assumes "\<forall>n. \<not> fault h n" and "\<forall>p\<in>set (exePath # args). \<not> isl (ReadFile h p)"
  shows "snd (compressExeAndArgs h exePath args) = None"
proof -
  from assms(2) obtain data where rd: "ReadFile h exePath = Inr data"
    by (cases "ReadFile h exePath") auto
  have ns: "\<not> hasSlashSuffix (Base exePath)"
    using ReadFile_no_slash [OF rd] Base_slash by blast
  obtain w1 r1 where we: "writeExe h NewWriter (Base exePath) data = (w1, r1)"
    by (cases "writeExe h NewWriter (Base exePath) data")
  with writeExe_succeeds [OF assms(1) ns, of NewWriter data] have r1: "r1 = None" by simp
  obtain w2 r2 where wa: "writeArgs h w1 args = (w2, r2)" by (cases "writeArgs h w1 args")
  with writeArgs_succeeds [OF assms(1), of args w1] assms(2) have "r2 = None" by simp
  with rd we r1 wa show ?thesis by (simp add: compressExeAndArgs_def)
qed

lemma demo_handler_built: "snd (compressExeAndArgs demo_host ''bin/handler'' []) = None"
  by code_simp

lemma demo_bootstrap_built: "snd (compressExeAndArgs demo_host ''bootstrap'' []) = None"
  by code_simp

lemma demo_with_cfg_built: "snd (compressExeAndArgs demo_host ''bin/handler'' [''cfg.json'']) = None"
  by code_simp

lemma Base_handler: "Base ''bin/handler'' = ''handler''"
  by (simp add: Base_def stripSlashes_def lastElement_def)

lemma Base_bootstrap: "Base ''bootstrap'' = bootstrap"
  by (simp add: Base_def stripSlashes_def lastElement_def bootstrap_def)

text \<open>
  Claim C1: for an executable whose base name is not the bootstrap name, built with no
  auxiliary files, the archive of a build that returns no error has exactly two
  entries: first a symbolic link named bootstrap whose stored target is the
  executable's base name, then a regular file named with the base name that holds the
  bytes read from the executable.
\<close>

theorem two_entries:
  assumes "Base exePath \<noteq> bootstrap" and "compressExeAndArgs h exePath [] = (w, None)"
  shows "\<exists>data lnk exe. ReadFile h exePath = Inr data \<and> dir w = [lnk, exe]
           \<and> Name (header lnk) = bootstrap
           \<and> Mode (header lnk) AND ModeType = ModeSymlink
           \<and> content lnk = Base exePath
           \<and> Name (header exe) = Base exePath
           \<and> Mode (header exe) AND ModeType = 0
           \<and> content exe = data"
proof -
  from compress_entries [OF assms(2)] assms(1) obtain data where rd: "ReadFile h exePath = Inr data"
    and d: "dir w = [\<lparr>header = stamp linkHeader, content = Base exePath\<rparr>,
                    \<lparr>header = stamp (exeHeader (Base exePath)), content = data\<rparr>]"
    by auto
  have ns: "\<not> hasSlashSuffix (Base exePath)"
    using ReadFile_no_slash [OF rd] Base_slash by blast
  have 1: "Mode (stamp linkHeader) AND ModeType = ModeSymlink"
    by (simp add: Mode_link) (simp add: zip_consts)
  have 2: "Mode (stamp (exeHeader (Base exePath))) AND ModeType = 0"
    by (simp add: Mode_exe [OF ns]) (simp add: zip_consts)
  have 3: "Name (stamp (exeHeader (Base exePath))) = Base exePath"
    by (simp add: stamp_def exeHeader_def)
  from rd d 1 2 3 Name_link show ?thesis by simp
qed

theorem two_entries_witness:
  "Base ''bin/handler'' \<noteq> bootstrap
   \<and> snd (compressExeAndArgs demo_host ''bin/handler'' []) = None
   \<and> ReadFile demo_host ''bin/handler'' = Inr ''ELF''
   \<and> map (\<lambda>e. (Name (header e), content e)) (dir (fst (compressExeAndArgs demo_host ''bin/handler'' [])))
       = [(''bootstrap'', ''handler''), (''handler'', ''ELF'')]
   \<and> map (\<lambda>e. Mode (header e) AND ModeType) (dir (fst (compressExeAndArgs demo_host ''bin/handler'' [])))
       = [ModeSymlink, 0]"
proof -
  have nb: "Base ''bin/handler'' \<noteq> bootstrap" by (simp add: Base_handler bootstrap_def)
  have c: "compressExeAndArgs demo_host ''bin/handler'' []
             = (fst (compressExeAndArgs demo_host ''bin/handler'' []), None)"
    using demo_handler_built by (simp add: prod_eq_iff)
  have r: "ReadFile demo_host ''bin/handler'' = Inr ''ELF''"
    by code_simp
  from two_entries [OF nb c] nb r demo_handler_built show ?thesis
    by (auto simp: Base_handler bootstrap_def)
qed

text \<open>
  Claim C2: for an executable whose base name is the bootstrap name, built with no
  auxiliary files, the archive of a build that returns no error has exactly one entry,
  the executable's bytes under the bootstrap name, and no entry is a symbolic link.
\<close>

theorem one_entry:
  assumes "Base exePath = bootstrap" and "compressExeAndArgs h exePath [] = (w, None)"
  shows "\<exists>data exe. ReadFile h exePath = Inr data \<and> dir w = [exe]
           \<and> Name (header exe) = bootstrap \<and> content exe = data
           \<and> list_all (\<lambda>e. Mode (header e) AND ModeType \<noteq> ModeSymlink) (dir w)"
proof -
  from compress_entries [OF assms(2)] assms(1) obtain data where rd: "ReadFile h exePath = Inr data"
    and d: "dir w = [\<lparr>header = stamp (exeHeader bootstrap), content = data\<rparr>]"
    by auto
  have 2: "Mode (stamp (exeHeader bootstrap)) AND ModeType \<noteq> ModeSymlink"
    by (simp add: Mode_exe [OF bootstrap_no_slash]) (simp add: zip_consts)
  have 3: "Name (stamp (exeHeader bootstrap)) = bootstrap"
    by (simp add: stamp_def exeHeader_def)
  from rd d 2 3 show ?thesis by simp
qed

theorem one_entry_witness:
  "Base ''bootstrap'' = bootstrap
   \<and> snd (compressExeAndArgs demo_host ''bootstrap'' []) = None
   \<and> map (\<lambda>e. (Name (header e), content e)) (dir (fst (compressExeAndArgs demo_host ''bootstrap'' [])))
       = [(''bootstrap'', ''ELF'')]
   \<and> list_all (\<lambda>e. Mode (header e) AND ModeType \<noteq> ModeSymlink)
        (dir (fst (compressExeAndArgs demo_host ''bootstrap'' [])))"
proof -
  have c: "compressExeAndArgs demo_host ''bootstrap'' []
             = (fst (compressExeAndArgs demo_host ''bootstrap'' []), None)"
    using demo_bootstrap_built by (simp add: prod_eq_iff)
  have r: "ReadFile demo_host ''bootstrap'' = Inr ''ELF''"
    by code_simp
  from one_entry [OF Base_bootstrap c] r demo_bootstrap_built Base_bootstrap show ?thesis
    by (auto simp: bootstrap_def)
qed

text \<open>
  Claim C3, as stated, at the executable \<open>bin/handler\<close>: the link entry is there, and its
  mode is 0755 with the symbolic-link bit, which is not 0777 with that bit: group and
  others cannot write.
\<close>

theorem link_mode_counterexample:
  "Base ''bin/handler'' \<noteq> bootstrap
   \<and> snd (compressExeAndArgs demo_host ''bin/handler'' []) = None
   \<and> Name (header (hd (dir (fst (compressExeAndArgs demo_host ''bin/handler'' []))))) = bootstrap
   \<and> Mode (header (hd (dir (fst (compressExeAndArgs demo_host ''bin/handler'' [])))))
       = perm_0755 OR ModeSymlink
   \<and> perm_0755 OR ModeSymlink \<noteq> perm_0777 OR ModeSymlink"
proof -
  have nb: "Base ''bin/handler'' \<noteq> bootstrap" by (simp add: Base_handler bootstrap_def)
  have c: "compressExeAndArgs demo_host ''bin/handler'' []
             = (fst (compressExeAndArgs demo_host ''bin/handler'' []), None)"
    using demo_handler_built by (simp add: prod_eq_iff)
  from compress_entries [OF c] nb
  have "hd (dir (fst (compressExeAndArgs demo_host ''bin/handler'' [])))
          = \<lparr>header = stamp linkHeader, content = Base ''bin/handler''\<rparr>"
    by auto
  moreover have "perm_0755 OR ModeSymlink \<noteq> perm_0777 OR ModeSymlink"
    by (simp add: zip_consts)
  ultimately show ?thesis using nb demo_handler_built Mode_link Name_link by simp
qed

text \<open>
  Claim C3, amended: whenever the builder has added a symbolic-link entry (the base name
  differs from the bootstrap name and the archive is not empty, whether or not the build
  went on to succeed), that entry comes first, is named bootstrap, and its mode is 0755
  (read, write and execute for the owner; read and execute for group and others)
  combined with the symbolic-link mode bit.
\<close>

theorem link_mode:
  assumes "Base exePath \<noteq> bootstrap" and "compressExeAndArgs h exePath args = (w, r)"
    and "dir w \<noteq> []"
  shows "Name (header (hd (dir w))) = bootstrap
         \<and> Mode (header (hd (dir w))) = perm_0755 OR ModeSymlink
         \<and> Mode (header (hd (dir w))) AND perm_0777 = perm_0755
         \<and> Mode (header (hd (dir w))) AND ModeType = ModeSymlink"
proof -
  from compress_first_header [OF assms(2) assms(1)] assms(3)
  obtain hs where "map header (dir w) = stamp linkHeader # hs" by auto
  then have "header (hd (dir w)) = stamp linkHeader"
    using assms(3) by (cases "dir w") auto
  moreover have "(perm_0755 OR ModeSymlink) AND perm_0777 = perm_0755"
    "(perm_0755 OR ModeSymlink) AND ModeType = ModeSymlink"
    by (simp_all add: zip_consts)
  ultimately show ?thesis by (simp add: Mode_link Name_link)
qed

theorem link_mode_witness:
  "Base ''bin/handler'' \<noteq> bootstrap
   \<and> dir (fst (compressExeAndArgs demo_host ''bin/handler'' [''cfg.json''])) \<noteq> []
   \<and> Name (header (hd (dir (fst (compressExeAndArgs demo_host ''bin/handler'' [''cfg.json''])))))
        = bootstrap
   \<and> Mode (header (hd (dir (fst (compressExeAndArgs demo_host ''bin/handler'' [''cfg.json''])))))
        = perm_0755 OR ModeSymlink"
proof -
  have nb: "Base ''bin/handler'' \<noteq> bootstrap" by (simp add: Base_handler bootstrap_def)
  have c: "compressExeAndArgs demo_host ''bin/handler'' [''cfg.json'']
             = (fst (compressExeAndArgs demo_host ''bin/handler'' [''cfg.json'']),
                snd (compressExeAndArgs demo_host ''bin/handler'' [''cfg.json'']))"
    by simp
  have ne: "dir (fst (compressExeAndArgs demo_host ''bin/handler'' [''cfg.json''])) \<noteq> []"
    by code_simp
  from link_mode [OF nb c ne] nb ne show ?thesis by simp
qed

lemma built_all_Deflate:
  assumes "compressExeAndArgs h exePath args = (w, None)"
  shows "\<forall>e\<in>set (dir w). Method (header e) = Deflate"
proof -
  from compress_ok [OF assms] obtain data w1 w2 where rd: "ReadFile h exePath = Inr data"
    and we: "writeExe h NewWriter (Base exePath) data = (w1, None)"
    and wa: "writeArgs h w1 args = (w2, None)" and w: "w = Close w2"
    by auto
  have ns: "\<not> hasSlashSuffix (Base exePath)"
    using ReadFile_no_slash [OF rd] Base_slash by blast
  have "Method (stamp (exeHeader (Base exePath))) = Deflate"
    using ns by (simp add: stamp_def exeHeader_def)
  with writeExe_ok [OF we ns] have "\<forall>e\<in>set (dir w1). Method (header e) = Deflate"
    by (simp add: NewWriter_def Method_link)
  from writeArgs_Deflate [OF wa this] w show ?thesis by (simp add: Close_def)
qed

text \<open>
  Every step of the builder keeps the rule of \<open>methodByName\<close> on the headers in the
  archive, whether it succeeds or fails.
\<close>

lemma CreateHeader_method:
  assumes "CreateHeader h w fh = (w1, r)" and "Method fh = Deflate"
    and "list_all methodByName (map header (dir w))"
  shows "list_all methodByName (map header (dir w1))"
  using assms by (auto simp: CreateHeader_def methodByName_def stamp_def split: if_splits)

lemma Write_method:
  assumes "Write h w b = (w1, r)" and "list_all methodByName (map header (dir w))"
  shows "list_all methodByName (map header (dir w1))"
  using Write_headers [OF assms(1)] assms(2) by simp

lemma writeLink_method:
  assumes "writeLink h w p = (w1, r)" and "list_all methodByName (map header (dir w))"
  shows "list_all methodByName (map header (dir w1))"
proof (cases "p = bootstrap")
  case True
  with assms show ?thesis by (simp add: writeLink_def)
next
  case False
  obtain w0 r0 where c: "CreateHeader h w linkHeader = (w0, r0)"
    by (cases "CreateHeader h w linkHeader")
  have "Method linkHeader = Deflate" by (simp add: linkHeader_def SetMode_def Let_def)
  from CreateHeader_method [OF c this assms(2)]
  have m0: "list_all methodByName (map header (dir w0))" .
  show ?thesis
  proof (cases r0)
    case (Some e)
    with assms(1) c False have "w1 = w0" by (simp add: writeLink_def)
    with m0 show ?thesis by simp
  next
    case None
    with assms(1) c False have "Write h w0 p = (w1, r)" by (simp add: writeLink_def)
    from Write_method [OF this m0] show ?thesis .
  qed
qed

lemma writeExe_method:
  assumes "writeExe h w p data = (w2, r)" and "list_all methodByName (map header (dir w))"
  shows "list_all methodByName (map header (dir w2))"
proof -
  obtain w0 r0 where l: "writeLink h w p = (w0, r0)" by (cases "writeLink h w p")
  from writeLink_method [OF l assms(2)] have m0: "list_all methodByName (map header (dir w0))" .
  show ?thesis
  proof (cases r0)
    case (Some e)
    with assms(1) l have "w2 = w0" by (simp add: writeExe_def)
    with m0 show ?thesis by simp
  next
    case None
    obtain w1 r1 where c: "CreateHeader h w0 (exeHeader p) = (w1, r1)"
      by (cases "CreateHeader h w0 (exeHeader p)")
    have "Method (exeHeader p) = Deflate" by (simp add: exeHeader_def)
    from CreateHeader_method [OF c this m0]
    have m1: "list_all methodByName (map header (dir w1))" .
    show ?thesis
    proof (cases r1)
      case (Some e)
      with assms(1) l None c have "w2 = w1" by (simp add: writeExe_def)
      with m1 show ?thesis by simp
    next
      case n1: None
      with assms(1) l None c have "Write h w1 data = (w2, r)" by (simp add: writeExe_def)
      from Write_method [OF this m1] show ?thesis .
    qed
  qed
qed

lemma writeArgs_method:
  "writeArgs h w args = (w1, r) \<Longrightarrow> list_all methodByName (map header (dir w)) \<Longrightarrow>
     list_all methodByName (map header (dir w1))"
proof (induction args arbitrary: w)
  case Nil
  then show ?case by simp
next
  case (Cons arg args)
  obtain w0 r0 where c: "Create h w arg = (w0, r0)" by (cases "Create h w arg")
  then have "CreateHeader h w \<lparr>Name = arg, CreatorVersion = 0, Method = Deflate, ExternalAttrs = 0\<rparr>
               = (w0, r0)"
    by (simp add: Create_def)
  from CreateHeader_method [OF this _ Cons.prems(2)]
  have m0: "list_all methodByName (map header (dir w0))" by simp
  show ?case
  proof (cases r0)
    case (Some e)
    with Cons.prems(1) c have "w1 = w0" by simp
    with m0 show ?thesis by simp
  next
    case None
    show ?thesis
    proof (cases "ReadFile (seen h (calls w0)) arg")
      case (Inl e)
      with Cons.prems(1) c None have "w1 = w0" by simp
      with m0 show ?thesis by simp
    next
      case (Inr data)
      obtain w2 r2 where wr: "Write h w0 data = (w2, r2)" by (cases "Write h w0 data")
      from Write_method [OF wr m0] have m2: "list_all methodByName (map header (dir w2))" .
      show ?thesis
      proof (cases r2)
        case (Some e)
        with Cons.prems(1) c None Inr wr have "w1 = w2" by simp
        with m2 show ?thesis by simp
      next
        case n2: None
        with Cons.prems(1) c None Inr wr have "writeArgs h w2 args = (w1, r)" by simp
        from Cons.IH [OF this m2] show ?thesis .
      qed
    qed
  qed
qed

lemma compress_method:
  assumes "compressExeAndArgs h exePath args = (w, r)"
  shows "list_all methodByName (map header (dir w))"
proof (cases "ReadFile h exePath")
  case (Inl e)
  with assms show ?thesis by (auto simp: compressExeAndArgs_def Close_def NewWriter_def)
next
  case (Inr data)
  obtain w1 r1 where we: "writeExe h NewWriter (Base exePath) data = (w1, r1)"
    by (cases "writeExe h NewWriter (Base exePath) data")
  have "list_all methodByName (map header (dir NewWriter))" by (simp add: NewWriter_def)
  from writeExe_method [OF we this] have m1: "list_all methodByName (map header (dir w1))" .
  show ?thesis
  proof (cases r1)
    case (Some e)
    with assms Inr we have "w = Close w1" by (simp add: compressExeAndArgs_def)
    with m1 show ?thesis by (simp add: Close_def)
  next
    case None
    obtain w2 r2 where wa: "writeArgs h w1 args = (w2, r2)" by (cases "writeArgs h w1 args")
    with assms Inr we None have "w = Close w2" by (simp add: compressExeAndArgs_def)
    with writeArgs_method [OF wa m1] show ?thesis by (simp add: Close_def)
  qed
qed

text \<open>
  Claim C8, as stated, at the auxiliary path \<open>dir/\<close>: the entry for it is created with
  the method Store before the read of the path fails, and the deferred \<open>Close\<close>
  finishes the archive, in memory and in the output file alike. The archive the builder
  leaves has the link and the executable deflated and \<open>dir/\<close> stored.
\<close>

theorem all_Deflate_counterexample:
  "snd (compressExeAndArgs demo_host ''bin/handler'' [''dir/'']) = Some (ReadFileError ''dir/'')
   \<and> map (\<lambda>e. (Name (header e), Method (header e)))
        (dir (fst (compressExeAndArgs demo_host ''bin/handler'' [''dir/''])))
       = [(''bootstrap'', Deflate), (''handler'', Deflate), (''dir/'', Store)]
   \<and> map_option (\<lambda>w. map (\<lambda>e. (Name (header e), Method (header e))) (dir w))
        (fst (compressExeAndArgsToFile demo_host ''out.zip'' ''bin/handler'' [''dir/'']))
       = Some [(''bootstrap'', Deflate), (''handler'', Deflate), (''dir/'', Store)]
   \<and> Store \<noteq> Deflate"
  by code_simp

text \<open>
  Claim C8, amended: in every archive the builder leaves, whether the build returned an
  error or not, each entry uses deflate unless its name ends in a slash, and then it is
  stored; and in the archive of every build that returns no error, all entries (the
  link when present, the executable, each auxiliary file) use deflate.
\<close>

theorem entry_methods:
  assumes "compressExeAndArgs h exePath args = (w, r)"
  shows "(\<forall>e\<in>set (dir w).
            Method (header e) = (if hasSlashSuffix (Name (header e)) then Store else Deflate))
         \<and> (r = None \<longrightarrow> (\<forall>e\<in>set (dir w). Method (header e) = Deflate))"
proof (intro conjI impI)
  from compress_method [OF assms]
  show "\<forall>e\<in>set (dir w).
          Method (header e) = (if hasSlashSuffix (Name (header e)) then Store else Deflate)"
    by (simp add: list_all_iff methodByName_def)
next
  assume "r = None"
  with assms have "compressExeAndArgs h exePath args = (w, None)" by simp
  then show "\<forall>e\<in>set (dir w). Method (header e) = Deflate" by (rule built_all_Deflate)
qed

theorem entry_methods_witness:
  "snd (compressExeAndArgs demo_host ''bin/handler'' [''cfg.json'']) = None
   \<and> map (\<lambda>e. (Name (header e), Method (header e)))
        (dir (fst (compressExeAndArgs demo_host ''bin/handler'' [''cfg.json''])))
       = [(''bootstrap'', Deflate), (''handler'', Deflate), (''cfg.json'', Deflate)]
   \<and> snd (compressExeAndArgs demo_host ''bin/handler'' [''dir/'']) \<noteq> None
   \<and> map (\<lambda>e. (Name (header e), Method (header e)))
        (dir (fst (compressExeAndArgs demo_host ''bin/handler'' [''dir/''])))
       = [(''bootstrap'', Deflate), (''handler'', Deflate), (''dir/'', Store)]"
proof -
  have c: "compressExeAndArgs demo_host ''bin/handler'' [''cfg.json'']
             = (fst (compressExeAndArgs demo_host ''bin/handler'' [''cfg.json'']), None)"
    using demo_with_cfg_built by (simp add: prod_eq_iff)
  have n: "map (\<lambda>e. Name (header e)) (dir (fst (compressExeAndArgs demo_host ''bin/handler'' [''cfg.json''])))
       = [''bootstrap'', ''handler'', ''cfg.json'']"
    by code_simp
  from entry_methods [OF c] n have 1:
    "map (\<lambda>e. (Name (header e), Method (header e)))
        (dir (fst (compressExeAndArgs demo_host ''bin/handler'' [''cfg.json''])))
       = [(''bootstrap'', Deflate), (''handler'', Deflate), (''cfg.json'', Deflate)]"
    by auto
  have d: "compressExeAndArgs demo_host ''bin/handler'' [''dir/'']
             = (fst (compressExeAndArgs demo_host ''bin/handler'' [''dir/'']),
                snd (compressExeAndArgs demo_host ''bin/handler'' [''dir/'']))"
    by simp
  have m: "map (\<lambda>e. Name (header e)) (dir (fst (compressExeAndArgs demo_host ''bin/handler'' [''dir/''])))
       = [''bootstrap'', ''handler'', ''dir/'']"
    by code_simp
  have s: "snd (compressExeAndArgs demo_host ''bin/handler'' [''dir/'']) \<noteq> None" by code_simp
  from entry_methods [OF d] m have 2:
    "map (\<lambda>e. (Name (header e), Method (header e)))
        (dir (fst (compressExeAndArgs demo_host ''bin/handler'' [''dir/''])))
       = [(''bootstrap'', Deflate), (''handler'', Deflate), (''dir/'', Store)]"
    by (auto simp: hasSlashSuffix_def)
  from demo_with_cfg_built 1 s 2 show ?thesis by blast
qed

lemma writeArgs_unreadable:
  "\<exists>p\<in>set args. \<not> sink h p \<and> isl (ReadFile h p) \<Longrightarrow> snd (writeArgs h w args) \<noteq> None"
proof (induction args arbitrary: w)
  case Nil
  then show ?case by simp
next
  case (Cons arg args)
  show ?case
  proof (cases "\<not> sink h arg \<and> isl (ReadFile h arg)")
    case True
    then have u: "\<And>n. isl (ReadFile (seen h n) arg)" by (simp add: ReadFile_seen)
    obtain w0 r0 where c: "Create h w arg = (w0, r0)" by (cases "Create h w arg")
    from u [of "calls w0"] obtain e where "ReadFile (seen h (calls w0)) arg = Inl e"
      by (cases "ReadFile (seen h (calls w0)) arg") auto
    with c show ?thesis by (cases r0) simp_all
  next
    case False
    with Cons.prems have "\<exists>p\<in>set args. \<not> sink h p \<and> isl (ReadFile h p)" by auto
    from Cons.IH [OF this] show ?thesis
      by (auto split: prod.splits option.splits sum.splits)
  qed
qed

lemma compress_unreadable:
  assumes "isl (ReadFile h exePath) \<or> (\<exists>p\<in>set args. \<not> sink h p \<and> isl (ReadFile h p))"
  shows "snd (compressExeAndArgs h exePath args) \<noteq> None"
proof (cases "isl (ReadFile h exePath)")
  case True
  then show ?thesis by (auto simp: compressExeAndArgs_def split: sum.splits)
next
  case False
  with assms have u: "\<exists>p\<in>set args. \<not> sink h p \<and> isl (ReadFile h p)" by simp
  from False obtain data where rd: "ReadFile h exePath = Inr data"
    by (cases "ReadFile h exePath") auto
  obtain w1 r1 where we: "writeExe h NewWriter (Base exePath) data = (w1, r1)"
    by (cases "writeExe h NewWriter (Base exePath) data")
  show ?thesis
  proof (cases r1)
    case (Some e)
    with rd we show ?thesis by (simp add: compressExeAndArgs_def)
  next
    case None
    obtain w2 r2 where wa: "writeArgs h w1 args = (w2, r2)" by (cases "writeArgs h w1 args")
    with writeArgs_unreadable [OF u, of w1] have "r2 \<noteq> None" by simp
    with rd we None wa show ?thesis by (simp add: compressExeAndArgs_def)
  qed
qed

lemma compress_exe_unreadable:
  "isl (ReadFile h exePath) \<Longrightarrow> dir (fst (compressExeAndArgs h exePath args)) = []"
  by (auto simp: compressExeAndArgs_def Close_def NewWriter_def split: sum.splits)

lemma ReadFile_os_Create:
  "\<not> namesFile h out p \<Longrightarrow> ReadFile (os_Create h out) p = ReadFile h p"
  by (simp add: ReadFile_def os_Create_def)

lemma sink_os_Create: "sink (os_Create h out) p = namesFile h out p"
  by (simp add: os_Create_def)

text \<open>
  Claim C5, as stated, on the example host. With the unreadable auxiliary file
  \<open>missing.txt\<close> the build returns the read error, and the archive already has three
  entries: the link, the executable, and the entry created for \<open>missing.txt\<close> before it
  was read. With the unreadable executable \<open>nosuch\<close> the write-to-file path returns the
  read error, and the output file, created first, is left behind as an empty archive.
\<close>

theorem aborted_build_counterexample:
  "isl (ReadFile demo_host ''missing.txt'')
   \<and> snd (compressExeAndArgs demo_host ''bin/handler'' [''missing.txt''])
        = Some (ReadFileError ''missing.txt'')
   \<and> map (\<lambda>e. Name (header e))
        (dir (fst (compressExeAndArgs demo_host ''bin/handler'' [''missing.txt''])))
        = [''bootstrap'', ''handler'', ''missing.txt'']
   \<and> isl (ReadFile demo_host ''nosuch'')
   \<and> compressExeAndArgsToFile demo_host ''out.zip'' ''nosuch'' []
        = (Some \<lparr>dir = [], calls = 0, failed = False, closed = True\<rparr>,
           Some (ReadFileError ''nosuch''))"
  by code_simp

text \<open>
  When the output path is another spelling of the path of an executable that does not
  exist yet, creating the output makes the executable readable, as an empty file, and
  the build returns no error: the archive holds the link and the empty executable.
\<close>

lemma output_names_executable:
  "isl (ReadFile demo_host ''nosuch'')
   \<and> ReadFile (os_Create demo_host ''./nosuch'') ''nosuch'' = Inr []
   \<and> snd (compressExeAndArgsToFile demo_host ''./nosuch'' ''nosuch'' []) = None
   \<and> map_option (\<lambda>w. map (\<lambda>e. (Name (header e), content e)) (dir w))
        (fst (compressExeAndArgsToFile demo_host ''./nosuch'' ''nosuch'' []))
       = Some [(''bootstrap'', ''nosuch''), (''nosuch'', [])]"
  by code_simp

text \<open>
  An auxiliary path that names the output file is read while the archive is being
  written, and gets what has been flushed to the file by then: here five calls have
  been made when \<open>./out.zip\<close> is read, on a host whose output file shows one byte per call
  of the writer.
\<close>

lemma output_read_back:
  "map_option (\<lambda>w. map (\<lambda>e. (Name (header e), content e)) (dir w))
     (fst (compressExeAndArgsToFile (demo_host\<lparr>flushed := (\<lambda>n. replicate n CHR ''z'')\<rparr>)
             ''out.zip'' ''bin/handler'' [''./out.zip'']))
     = Some [(''bootstrap'', ''handler''), (''handler'', ''ELF''), (''./out.zip'', ''zzzzz'')]"
  by code_simp

text \<open>
  Where a build stops that fails to read an auxiliary file, all earlier inputs having
  been read and written: the error is the read error, and the archive holds the link
  (if any), the executable, the files before the failing one, and the entry created
  for the failing one.
\<close>

lemma Name_exe: "Name (stamp (exeHeader p)) = p"
  by (simp add: stamp_def exeHeader_def)

lemma Create_names:
  assumes "\<not> fault h (calls w)"
  shows "\<exists>w1. Create h w name = (w1, None)
           \<and> map (\<lambda>e. Name (header e)) (dir w1) = map (\<lambda>e. Name (header e)) (dir w) @ [name]"
  using assms by (simp add: Create_def CreateHeader_def stamp_def Deflate_def Store_def)

lemma writeArgs_stops:
  assumes "\<forall>n. \<not> fault h n" and "\<forall>q\<in>set pre. \<not> isl (ReadFile h q)"
    and "\<not> sink h p" and "ReadFile h p = Inl e"
  shows "\<exists>w1. writeArgs h w (pre @ p # post) = (w1, Some e)
           \<and> map (\<lambda>e. Name (header e)) (dir w1) = map (\<lambda>e. Name (header e)) (dir w) @ pre @ [p]"
  using assms(2)
proof (induction pre arbitrary: w)
  case Nil
  from assms(1) have "\<not> fault h (calls w)" by simp
  from Create_names [OF this, of p] obtain w1 where c: "Create h w p = (w1, None)"
    and n1: "map (\<lambda>e. Name (header e)) (dir w1) = map (\<lambda>e. Name (header e)) (dir w) @ [p]"
    by auto
  have "ReadFile (seen h (calls w1)) p = Inl e"
    using assms(3) assms(4) by (simp add: ReadFile_seen)
  with c n1 show ?case by simp
next
  case (Cons q pre)
  from assms(1) have "\<not> fault h (calls w)" by simp
  from Create_names [OF this, of q] obtain w1 where c: "Create h w q = (w1, None)"
    and n1: "map (\<lambda>e. Name (header e)) (dir w1) = map (\<lambda>e. Name (header e)) (dir w) @ [q]"
    by auto
  from Cons.prems have "\<not> isl (ReadFile h q)" by simp
  then have "\<not> isl (ReadFile (seen h (calls w1)) q)" by (rule ReadFile_seen_ok)
  then obtain data where rd: "ReadFile (seen h (calls w1)) q = Inr data"
    by (cases "ReadFile (seen h (calls w1)) q") auto
  then have ns: "\<not> hasSlashSuffix q" by (rule ReadFile_no_slash)
  obtain w2 r2 where wr: "Write h w1 data = (w2, r2)" by (cases "Write h w1 data")
  from n1 have ne: "dir w1 \<noteq> []" by auto
  from n1 ne have "Name (header (last (dir w1))) = q"
    by (metis (no_types, lifting) last_map last_snoc)
  with wr ne ns assms(1) have r2: "r2 = None" by (auto simp: Write_def split: if_splits)
  from Write_headers [OF wr] have "map header (dir w2) = map header (dir w1)" .
  then have "map Name (map header (dir w2)) = map Name (map header (dir w1))" by simp
  then have n2: "map (\<lambda>e. Name (header e)) (dir w2) = map (\<lambda>e. Name (header e)) (dir w) @ [q]"
    using n1 by (simp add: comp_def)
  from Cons.prems have "\<forall>q\<in>set pre. \<not> isl (ReadFile h q)" by simp
  from Cons.IH [OF this, of w2] obtain w3 where
    "writeArgs h w2 (pre @ p # post) = (w3, Some e)"
    "map (\<lambda>e. Name (header e)) (dir w3) = map (\<lambda>e. Name (header e)) (dir w2) @ pre @ [p]"
    by auto
  with c rd wr r2 n2 show ?case by simp
qed

lemma compress_stops:
  assumes "\<forall>n. \<not> fault h n" and "\<not> isl (ReadFile h exePath)"
    and "\<forall>q\<in>set pre. \<not> isl (ReadFile h q)" and "\<not> sink h p" and "ReadFile h p = Inl e"
  shows "snd (compressExeAndArgs h exePath (pre @ p # post)) = Some e
         \<and> map (\<lambda>e. Name (header e)) (dir (fst (compressExeAndArgs h exePath (pre @ p # post))))
             = (if Base exePath \<noteq> bootstrap then [bootstrap] else []) @ [Base exePath] @ pre @ [p]"
proof -
  from assms(2) obtain data where rd: "ReadFile h exePath = Inr data"
    by (cases "ReadFile h exePath") auto
  have ns: "\<not> hasSlashSuffix (Base exePath)"
    using ReadFile_no_slash [OF rd] Base_slash by blast
  obtain w1 r1 where we: "writeExe h NewWriter (Base exePath) data = (w1, r1)"
    by (cases "writeExe h NewWriter (Base exePath) data")
  with writeExe_succeeds [OF assms(1) ns, of NewWriter data] have we': "writeExe h NewWriter (Base exePath) data = (w1, None)"
    by simp
  from writeExe_ok [OF we' ns]
  have n1: "map (\<lambda>e. Name (header e)) (dir w1)
              = (if Base exePath \<noteq> bootstrap then [bootstrap] else []) @ [Base exePath]"
    by (simp add: NewWriter_def Name_link Name_exe)
  from writeArgs_stops [OF assms(1) assms(3) assms(4) assms(5), of w1 post] obtain w2 where
    wa: "writeArgs h w1 (pre @ p # post) = (w2, Some e)"
    and n2: "map (\<lambda>e. Name (header e)) (dir w2) = map (\<lambda>e. Name (header e)) (dir w1) @ pre @ [p]"
    by auto
  from rd we' wa have "compressExeAndArgs h exePath (pre @ p # post) = (Close w2, Some e)"
    by (simp add: compressExeAndArgs_def)
  with n1 n2 show ?thesis by (simp add: Close_def)
qed

text \<open>
  Claim C5, amended: when reading the executable, or an auxiliary file that is not the
  file being written, fails, the build returns an error. When it is the executable that
  cannot be read, no archive entry has been produced. When it is such an auxiliary
  file, everything before it having been read and written, the error is that read error
  and the archive keeps what was written: the link (if any), the executable, the files
  before the failing one, and the entry created for the failing one. In the
  write-to-file path, when an input that does not name the output file cannot be read,
  the error is returned as well, and the output file, created before any input is read,
  exists afterwards.
\<close>

theorem aborted_build:
  "(isl (ReadFile h exePath) \<or> (\<exists>p\<in>set args. \<not> sink h p \<and> isl (ReadFile h p)) \<longrightarrow>
      snd (compressExeAndArgs h exePath args) \<noteq> None)
   \<and> (isl (ReadFile h exePath) \<longrightarrow> dir (fst (compressExeAndArgs h exePath args)) = [])
   \<and> ((\<forall>n. \<not> fault h n) \<and> \<not> isl (ReadFile h exePath) \<and> args = pre @ p # post
        \<and> (\<forall>q\<in>set pre. \<not> isl (ReadFile h q)) \<and> \<not> sink h p \<and> ReadFile h p = Inl e \<longrightarrow>
        snd (compressExeAndArgs h exePath args) = Some e
        \<and> map (\<lambda>e. Name (header e)) (dir (fst (compressExeAndArgs h exePath args)))
            = (if Base exePath \<noteq> bootstrap then [bootstrap] else [])
              @ [Base exePath] @ pre @ [p])
   \<and> (creatable h outZipPath
        \<and> (\<exists>p\<in>set (exePath # args). \<not> namesFile h outZipPath p \<and> isl (ReadFile h p)) \<longrightarrow>
        fst (compressExeAndArgsToFile h outZipPath exePath args) \<noteq> None
        \<and> snd (compressExeAndArgsToFile h outZipPath exePath args) \<noteq> None)"
proof (intro conjI impI)
  assume "isl (ReadFile h exePath) \<or> (\<exists>p\<in>set args. \<not> sink h p \<and> isl (ReadFile h p))"
  then show "snd (compressExeAndArgs h exePath args) \<noteq> None"
    by (rule compress_unreadable)
next
  assume "isl (ReadFile h exePath)"
  then show "dir (fst (compressExeAndArgs h exePath args)) = []"
    by (rule compress_exe_unreadable)
next
  assume a: "(\<forall>n. \<not> fault h n) \<and> \<not> isl (ReadFile h exePath) \<and> args = pre @ p # post
        \<and> (\<forall>q\<in>set pre. \<not> isl (ReadFile h q)) \<and> \<not> sink h p \<and> ReadFile h p = Inl e"
  then have "snd (compressExeAndArgs h exePath (pre @ p # post)) = Some e"
    by (intro conjunct1 [OF compress_stops]) blast+
  with a show "snd (compressExeAndArgs h exePath args) = Some e" by simp
next
  assume a: "(\<forall>n. \<not> fault h n) \<and> \<not> isl (ReadFile h exePath) \<and> args = pre @ p # post
        \<and> (\<forall>q\<in>set pre. \<not> isl (ReadFile h q)) \<and> \<not> sink h p \<and> ReadFile h p = Inl e"
  then have "map (\<lambda>e. Name (header e)) (dir (fst (compressExeAndArgs h exePath (pre @ p # post))))
             = (if Base exePath \<noteq> bootstrap then [bootstrap] else []) @ [Base exePath] @ pre @ [p]"
    by (intro conjunct2 [OF compress_stops]) blast+
  with a show "map (\<lambda>e. Name (header e)) (dir (fst (compressExeAndArgs h exePath args)))
             = (if Base exePath \<noteq> bootstrap then [bootstrap] else []) @ [Base exePath] @ pre @ [p]"
    by simp
next
  assume a: "creatable h outZipPath
        \<and> (\<exists>p\<in>set (exePath # args). \<not> namesFile h outZipPath p \<and> isl (ReadFile h p))"
  then show "fst (compressExeAndArgsToFile h outZipPath exePath args) \<noteq> None"
    by (simp add: compressExeAndArgsToFile_def split: prod.splits)
next
  assume a: "creatable h outZipPath
        \<and> (\<exists>p\<in>set (exePath # args). \<not> namesFile h outZipPath p \<and> isl (ReadFile h p))"
  let ?h = "os_Create h outZipPath"
  from a obtain p where p: "p \<in> set (exePath # args)" "\<not> namesFile h outZipPath p"
    "isl (ReadFile h p)"
    by blast
  from p(2) p(3) have r: "isl (ReadFile ?h p)" by (simp add: ReadFile_os_Create)
  from p(2) have s: "\<not> sink ?h p" by (simp add: sink_os_Create)
  have "isl (ReadFile ?h exePath) \<or> (\<exists>p\<in>set args. \<not> sink ?h p \<and> isl (ReadFile ?h p))"
  proof (cases "p = exePath")
    case True
    with r show ?thesis by simp
  next
    case False
    with p(1) have "p \<in> set args" by simp
    with r s show ?thesis by blast
  qed
  then have "snd (compressExeAndArgs ?h exePath args) \<noteq> None" by (rule compress_unreadable)
  with a show "snd (compressExeAndArgsToFile h outZipPath exePath args) \<noteq> None"
    by (auto simp: compressExeAndArgsToFile_def split: prod.splits)
qed

theorem aborted_build_witness:
  "isl (ReadFile demo_host ''missing.txt'') \<and> isl (ReadFile demo_host ''nosuch'')
   \<and> snd (compressExeAndArgs demo_host ''bin/handler'' [''cfg.json'', ''missing.txt''])
       = Some (ReadFileError ''missing.txt'')
   \<and> map (\<lambda>e. Name (header e))
        (dir (fst (compressExeAndArgs demo_host ''bin/handler'' [''cfg.json'', ''missing.txt''])))
       = [''bootstrap'', ''handler'', ''cfg.json'', ''missing.txt'']
   \<and> dir (fst (compressExeAndArgs demo_host ''nosuch'' [])) = []
   \<and> snd (compressExeAndArgs demo_host ''nosuch'' []) \<noteq> None
   \<and> creatable demo_host ''out.zip''
   \<and> fst (compressExeAndArgsToFile demo_host ''out.zip'' ''bin/handler'' [''cfg.json'', ''missing.txt''])
        \<noteq> None
   \<and> snd (compressExeAndArgsToFile demo_host ''out.zip'' ''bin/handler'' [''cfg.json'', ''missing.txt''])
        \<noteq> None"
proof -
  have r: "ReadFile demo_host ''missing.txt'' = Inl (ReadFileError ''missing.txt'')" by code_simp
  then have r': "isl (ReadFile demo_host ''missing.txt'')" by simp
  have n: "isl (ReadFile demo_host ''nosuch'')" by code_simp
  have k: "\<not> sink demo_host ''missing.txt''" by (simp add: demo_host_def)
  have e: "\<exists>p\<in>set [''cfg.json'', ''missing.txt'']. \<not> sink demo_host p \<and> isl (ReadFile demo_host p)"
    using r' k by simp
  have f: "\<forall>n. \<not> fault demo_host n" by (simp add: demo_host_def)
  have x: "\<not> isl (ReadFile demo_host ''bin/handler'')" by code_simp
  have s: "[''cfg.json'', ''missing.txt''] = [''cfg.json''] @ ''missing.txt'' # []" by simp
  have q: "\<forall>q\<in>set [''cfg.json'']. \<not> isl (ReadFile demo_host q)" by code_simp
  have c: "creatable demo_host ''out.zip''" by (simp add: demo_host_def)
  have o: "\<not> namesFile demo_host ''out.zip'' ''missing.txt''" by code_simp
  have o': "\<exists>p\<in>set (''bin/handler'' # [''cfg.json'', ''missing.txt'']).
              \<not> namesFile demo_host ''out.zip'' p \<and> isl (ReadFile demo_host p)"
    using o r' by simp
  have b: "Base ''bin/handler'' \<noteq> bootstrap" by (simp add: Base_handler bootstrap_def)
  note t1 = aborted_build [of demo_host "''bin/handler''" "[''cfg.json'', ''missing.txt'']"
      "[''cfg.json'']" "''missing.txt''" "[]" "ReadFileError ''missing.txt''" "''out.zip''"]
  note t2 = aborted_build [of demo_host "''nosuch''" "[]" "[]" "''x''" "[]"
      "ReadFileError ''x''" "''out.zip''"]
  from t1 e f x s q k r c o' have 1:
    "snd (compressExeAndArgs demo_host ''bin/handler'' [''cfg.json'', ''missing.txt''])
       = Some (ReadFileError ''missing.txt'')"
    "map (\<lambda>e. Name (header e))
        (dir (fst (compressExeAndArgs demo_host ''bin/handler'' [''cfg.json'', ''missing.txt''])))
       = (if Base ''bin/handler'' \<noteq> bootstrap then [bootstrap] else [])
         @ [Base ''bin/handler''] @ [''cfg.json''] @ [''missing.txt'']"
    "fst (compressExeAndArgsToFile demo_host ''out.zip'' ''bin/handler'' [''cfg.json'', ''missing.txt''])
        \<noteq> None"
    "snd (compressExeAndArgsToFile demo_host ''out.zip'' ''bin/handler'' [''cfg.json'', ''missing.txt''])
        \<noteq> None"
    by blast+
  from t2 n have 2: "dir (fst (compressExeAndArgs demo_host ''nosuch'' [])) = []"
    "snd (compressExeAndArgs demo_host ''nosuch'' []) \<noteq> None"
    by blast+
  from 1(2) b have 3: "map (\<lambda>e. Name (header e))
        (dir (fst (compressExeAndArgs demo_host ''bin/handler'' [''cfg.json'', ''missing.txt''])))
       = [''bootstrap'', ''handler'', ''cfg.json'', ''missing.txt'']"
    by (simp add: Base_handler bootstrap_def)
  from r' n 1(1) 3 2 c 1(3) 1(4) show ?thesis by blast
qed

section \<open>Properties of the deploy client\<close>

lemma poll_run:
  assumes "\<forall>k<length rest. getFunction svc fn (n + k) = Configuration (fst (rest ! k)) (snd (rest ! k))"
    and "\<forall>k<length rest. fst (((status, reason) # rest) ! k) = LastUpdateStatusInProgress"
    and "fst (last ((status, reason) # rest)) \<noteq> LastUpdateStatusInProgress"
  shows "poll svc fn n log status reason =
           Some \<lparr>reports = log @ map (\<lambda>(s, r). report s r) ((status, reason) # rest),
                 fetches = n + length rest, result = Returned None\<rparr>"
  using assms
proof (induction rest arbitrary: n log status reason)
  case Nil
  then show ?case by (simp add: poll.simps)
next
  case (Cons o1 rest)
  obtain s1 r1 where o1: "o1 = (s1, r1)" by (cases o1)
  from Cons.prems(2) have st: "status = LastUpdateStatusInProgress" by auto
  from Cons.prems(1) have g: "getFunction svc fn n = Configuration s1 r1"
    using o1 by auto
  have a1: "\<forall>k<length rest. getFunction svc fn (Suc n + k) = Configuration (fst (rest ! k)) (snd (rest ! k))"
  proof (intro allI impI)
    fix k assume "k < length rest"
    then have "Suc k < length (o1 # rest)" by simp
    with Cons.prems(1) have "getFunction svc fn (n + Suc k) = Configuration (fst ((o1 # rest) ! Suc k)) (snd ((o1 # rest) ! Suc k))"
      by blast
    then show "getFunction svc fn (Suc n + k) = Configuration (fst (rest ! k)) (snd (rest ! k))" by simp
  qed
  have a2: "\<forall>k<length rest. fst (((s1, r1) # rest) ! k) = LastUpdateStatusInProgress"
  proof (intro allI impI)
    fix k assume "k < length rest"
    then have "Suc k < length (o1 # rest)" by simp
    with Cons.prems(2) have "fst (((status, reason) # o1 # rest) ! Suc k) = LastUpdateStatusInProgress"
      by blast
    then show "fst (((s1, r1) # rest) ! k) = LastUpdateStatusInProgress" using o1 by simp
  qed
  have a3: "fst (last ((s1, r1) # rest)) \<noteq> LastUpdateStatusInProgress"
    using Cons.prems(3) o1 by simp
  have "poll svc fn n log status reason = poll svc fn (Suc n) (log @ [report status reason]) s1 r1"
    using st g by (subst poll.simps) simp
  also have "\<dots> = Some \<lparr>reports = (log @ [report status reason]) @ map (\<lambda>(s, r). report s r) ((s1, r1) # rest),
                 fetches = Suc n + length rest, result = Returned None\<rparr>"
    using a1 a2 a3 by (rule Cons.IH)
  finally show ?case using o1 by simp
qed

lemma deploy_run:
  assumes "compressExeAndArgs (inMemory h) exePath args = (w, None)" and "loadConfig svc = None"
    and "updateCode svc fn (dir w) = Inr first"
    and "\<forall>k<length rest. getFunction svc fn k = Configuration (fst (rest ! k)) (snd (rest ! k))"
    and "\<forall>k<length rest. fst ((first # rest) ! k) = LastUpdateStatusInProgress"
    and "fst (last (first # rest)) \<noteq> LastUpdateStatusInProgress"
  shows "updateFunctionCode h svc fn exePath args =
           Some \<lparr>reports = map (\<lambda>(s, r). report s r) (first # rest),
                 fetches = length rest, result = Returned None\<rparr>"
proof -
  obtain s0 r0 where f: "first = (s0, r0)" by (cases first)
  have "updateFunctionCode h svc fn exePath args = poll svc fn 0 [] s0 r0"
    using assms(1-3) f by (simp add: updateFunctionCode_def)
  moreover have "poll svc fn 0 [] s0 r0 =
      Some \<lparr>reports = [] @ map (\<lambda>(s, r). report s r) ((s0, r0) # rest),
            fetches = 0 + length rest, result = Returned None\<rparr>"
    using assms(4-6) unfolding f by (intro poll_run) simp_all
  ultimately show ?thesis using f by simp
qed

lemma inMemory_demo_host: "inMemory demo_host = demo_host"
  by (simp add: inMemory_def demo_host_def)

lemma demo_fn_built_dir:
  "compressExeAndArgs (inMemory demo_host) ''bin/handler'' []
     = (fst (compressExeAndArgs demo_host ''bin/handler'' []), None)"
  using demo_handler_built by (simp add: prod_eq_iff inMemory_demo_host)

text \<open>
  Claim C6: let the statuses observed be \<open>first\<close>, from the update response, followed by
  \<open>rest\<close>, from the successive fetches, all in-progress but the last. Then the deploy
  operation returns, after exactly as many fetches as it took to observe that last
  status, and it returns no error, whatever status other than in-progress the last one
  is, successful or failed.
\<close>

theorem deploy_terminates:
  assumes "compressExeAndArgs (inMemory h) exePath args = (w, None)" and "loadConfig svc = None"
    and "updateCode svc fn (dir w) = Inr first"
    and "\<forall>k<length rest. getFunction svc fn k = Configuration (fst (rest ! k)) (snd (rest ! k))"
    and "\<forall>k<length rest. fst ((first # rest) ! k) = LastUpdateStatusInProgress"
    and "fst (last (first # rest)) \<noteq> LastUpdateStatusInProgress"
  shows "\<exists>r. updateFunctionCode h svc fn exePath args = Some r
              \<and> fetches r = length rest \<and> result r = Returned None"
  using deploy_run [OF assms] by simp

theorem deploy_terminates_witness:
  "fst (last [(LastUpdateStatusInProgress, None), (LastUpdateStatusFailed, Some ''bad handler'')])
     \<noteq> LastUpdateStatusInProgress
   \<and> map_option fetches (updateFunctionCode demo_host failing_service ''fn'' ''bin/handler'' []) = Some 1
   \<and> map_option result (updateFunctionCode demo_host failing_service ''fn'' ''bin/handler'' [])
       = Some (Returned None)"
proof -
  have 2: "loadConfig failing_service = None" by (simp add: failing_service_def)
  have 3: "updateCode failing_service ''fn'' (dir (fst (compressExeAndArgs demo_host ''bin/handler'' [])))
             = Inr (LastUpdateStatusInProgress, None)"
    by (simp add: failing_service_def)
  have 4: "\<forall>k<length [(LastUpdateStatusFailed, Some ''bad handler'')].
             getFunction failing_service ''fn'' k
               = Configuration (fst ([(LastUpdateStatusFailed, Some ''bad handler'')] ! k))
                   (snd ([(LastUpdateStatusFailed, Some ''bad handler'')] ! k))"
    by (simp add: failing_service_def)
  have 5: "\<forall>k<length [(LastUpdateStatusFailed, Some ''bad handler'')].
             fst (((LastUpdateStatusInProgress, None) # [(LastUpdateStatusFailed, Some ''bad handler'')]) ! k)
               = LastUpdateStatusInProgress"
    by simp
  have 6: "fst (last ((LastUpdateStatusInProgress, None) # [(LastUpdateStatusFailed, Some ''bad handler'')]))
             \<noteq> LastUpdateStatusInProgress"
    by (simp add: LastUpdateStatusInProgress_def LastUpdateStatusFailed_def)
  from deploy_terminates [OF demo_fn_built_dir 2 3 4 5 6] 6 show ?thesis by auto
qed

text \<open>
  Claim C7: with the observed statuses as in C6, the reports logged are exactly one per
  observed status, in order, up to and including the first that is not in-progress (one
  more than the fetches made), and no error is returned; when the update request itself
  fails, nothing is reported, nothing is fetched, and that error is returned; and on the
  statuses in-progress, in-progress, successful there are exactly three reports, two
  fetches, and no error.
\<close>

theorem deploy_reports:
  "(compressExeAndArgs (inMemory h) exePath args = (w, None) \<and> loadConfig svc = None
      \<and> updateCode svc fn (dir w) = Inr first
      \<and> (\<forall>k<length rest. getFunction svc fn k = Configuration (fst (rest ! k)) (snd (rest ! k)))
      \<and> (\<forall>k<length rest. fst ((first # rest) ! k) = LastUpdateStatusInProgress)
      \<and> fst (last (first # rest)) \<noteq> LastUpdateStatusInProgress
    \<longrightarrow> (\<exists>r. updateFunctionCode h svc fn exePath args = Some r
              \<and> reports r = map (\<lambda>(s, x). report s x) (first # rest)
              \<and> length (reports r) = Suc (fetches r)
              \<and> result r = Returned None))
   \<and> (compressExeAndArgs (inMemory h) exePath args = (w, None) \<and> loadConfig svc = None
      \<and> updateCode svc fn (dir w) = Inl e
    \<longrightarrow> updateFunctionCode h svc fn exePath args
          = Some \<lparr>reports = [], fetches = 0, result = Returned (Some e)\<rparr>)
   \<and> updateFunctionCode demo_host demo_service ''fn'' ''bin/handler'' []
       = Some \<lparr>reports = [report LastUpdateStatusInProgress None,
                           report LastUpdateStatusInProgress None,
                           report LastUpdateStatusSuccessful (Some ''done'')],
               fetches = 2, result = Returned None\<rparr>"
proof (intro conjI impI)
  assume a: "compressExeAndArgs (inMemory h) exePath args = (w, None) \<and> loadConfig svc = None
      \<and> updateCode svc fn (dir w) = Inr first
      \<and> (\<forall>k<length rest. getFunction svc fn k = Configuration (fst (rest ! k)) (snd (rest ! k)))
      \<and> (\<forall>k<length rest. fst ((first # rest) ! k) = LastUpdateStatusInProgress)
      \<and> fst (last (first # rest)) \<noteq> LastUpdateStatusInProgress"
  then have "updateFunctionCode h svc fn exePath args =
           Some \<lparr>reports = map (\<lambda>(s, r). report s r) (first # rest),
                 fetches = length rest, result = Returned None\<rparr>"
    by (intro deploy_run) blast+
  then show "\<exists>r. updateFunctionCode h svc fn exePath args = Some r
              \<and> reports r = map (\<lambda>(s, x). report s x) (first # rest)
              \<and> length (reports r) = Suc (fetches r)
              \<and> result r = Returned None"
    by simp
next
  assume "compressExeAndArgs (inMemory h) exePath args = (w, None) \<and> loadConfig svc = None
      \<and> updateCode svc fn (dir w) = Inl e"
  then show "updateFunctionCode h svc fn exePath args
          = Some \<lparr>reports = [], fetches = 0, result = Returned (Some e)\<rparr>"
    by (simp add: updateFunctionCode_def)
next
  show "updateFunctionCode demo_host demo_service ''fn'' ''bin/handler'' []
       = Some \<lparr>reports = [report LastUpdateStatusInProgress None,
                           report LastUpdateStatusInProgress None,
                           report LastUpdateStatusSuccessful (Some ''done'')],
               fetches = 2, result = Returned None\<rparr>"
    by code_simp
qed

theorem deploy_reports_witness:
  "map_option (\<lambda>r. length (reports r)) (updateFunctionCode demo_host demo_service ''fn'' ''bin/handler'' [])
     = Some 3
   \<and> map_option result (updateFunctionCode demo_host demo_service ''fn'' ''bin/handler'' [])
     = Some (Returned None)
   \<and> updateFunctionCode demo_host down_service ''fn'' ''bin/handler'' []
     = Some \<lparr>reports = [], fetches = 0, result = Returned (Some (ServiceError ''connection refused''))\<rparr>"
proof -
  let ?w = "fst (compressExeAndArgs demo_host ''bin/handler'' [])"
  let ?first = "(LastUpdateStatusInProgress, None :: string option)"
  let ?rest = "[(LastUpdateStatusInProgress, None), (LastUpdateStatusSuccessful, Some ''done'')]"
  have 2: "loadConfig down_service = None" by (simp add: down_service_def)
  have 3: "updateCode down_service ''fn'' (dir ?w) = Inl (ServiceError ''connection refused'')"
    by (simp add: down_service_def)
  have 4: "loadConfig demo_service = None" by (simp add: demo_service_def)
  have 5: "updateCode demo_service ''fn'' (dir ?w) = Inr ?first"
    by (simp add: demo_service_def)
  have 6: "\<forall>k<length ?rest. getFunction demo_service ''fn'' k
             = Configuration (fst (?rest ! k)) (snd (?rest ! k))"
    by (auto simp: demo_service_def less_Suc_eq)
  have 7: "\<forall>k<length ?rest. fst ((?first # ?rest) ! k) = LastUpdateStatusInProgress"
    by (auto simp: less_Suc_eq)
  have 8: "fst (last (?first # ?rest)) \<noteq> LastUpdateStatusInProgress"
    by (simp add: LastUpdateStatusInProgress_def LastUpdateStatusSuccessful_def)
  from deploy_reports [of demo_host "''bin/handler''" "[]" ?w demo_service "''fn''" ?first ?rest
      "ServiceError ''connection refused''"] demo_fn_built_dir 4 5 6 7 8
  have a: "map_option (\<lambda>r. length (reports r))
             (updateFunctionCode demo_host demo_service ''fn'' ''bin/handler'' []) = Some 3
           \<and> map_option result (updateFunctionCode demo_host demo_service ''fn'' ''bin/handler'' [])
             = Some (Returned None)"
    by auto
  from deploy_reports [of demo_host "''bin/handler''" "[]" ?w down_service "''fn''" ?first ?rest
      "ServiceError ''connection refused''"] demo_fn_built_dir 2 3
  have b: "updateFunctionCode demo_host down_service ''fn'' ''bin/handler'' []
     = Some \<lparr>reports = [], fetches = 0, result = Returned (Some (ServiceError ''connection refused''))\<rparr>"
    by simp
  from a b show ?thesis by simp
qed

section \<open>Properties of the compile adapter\<close>

lemma envEntry_GOOS: "envEntry ''GOOS=linux'' = Some (''GOOS'', ''linux'')"
  by (simp add: envEntry_def)

lemma envEntry_GOARCH: "envEntry ''GOARCH=amd64'' = Some (''GOARCH'', ''amd64'')"
  by (simp add: envEntry_def)

text \<open>
  What the compiler is started with, for any caller environment: a binding of the
  caller's wins, and only a name the caller leaves unbound gets the fixed value.
\<close>

lemma childEnv_goBuild:
  "childEnv (Env (goBuildCmd environ inp)) k =
     (case childEnv environ k of
        Some v \<Rightarrow> Some v
      | None \<Rightarrow> [''GOOS'' \<mapsto> ''linux'', ''GOARCH'' \<mapsto> ''amd64''] k)"
  by (simp add: childEnv_def goBuildCmd_def envEntry_GOOS envEntry_GOARCH map_add_def
      split: option.splits)

text \<open>
  Claim C4 at a caller environment that binds \<open>GOOS\<close> (or \<open>GOARCH\<close>): the fixed entries
  come first in \<open>cmd.Env\<close> and the caller's entries after them, so the caller's value is
  the one the compiler sees, not \<open>linux\<close> (or \<open>amd64\<close>).
\<close>

theorem goBuild_env_at_GOOS_windows:
  "childEnv (Env (goBuildCmd [''PATH=/usr/bin'', ''GOOS=windows''] ''main.go'')) ''GOOS''
     = Some ''windows''
   \<and> childEnv (Env (goBuildCmd [''PATH=/usr/bin'', ''GOARCH=arm64''] ''main.go'')) ''GOARCH''
     = Some ''arm64''"
  by code_simp

section \<open>Properties of the JSON methods\<close>

lemma Split_no_sep: "sep \<notin> set s \<Longrightarrow> Split s sep = [s]"
  by (subst Split.simps) simp

lemma takeWhile_sep: "sep \<notin> set x \<Longrightarrow> takeWhile (\<lambda>c. c \<noteq> sep) (x @ sep # rest) = x"
  by (induction x) auto

lemma dropWhile_sep: "sep \<notin> set x \<Longrightarrow> dropWhile (\<lambda>c. c \<noteq> sep) (x @ sep # rest) = sep # rest"
  by (induction x) auto

lemma Split_append:
  assumes "sep \<notin> set x"
  shows "Split (x @ sep # rest) sep = x # Split rest sep"
  by (subst Split.simps) (simp add: takeWhile_sep [OF assms] dropWhile_sep [OF assms])

lemma Split_Join:
  "v \<noteq> [] \<Longrightarrow> \<forall>x\<in>set v. sep \<notin> set x \<Longrightarrow> Split (Join v [sep]) sep = v"
proof (induction v "[sep]" rule: Join.induct)
  case 1
  then show ?case by simp
next
  case (2 x)
  then show ?case by (simp add: Split_no_sep)
next
  case (3 x y ys)
  then show ?case by (simp add: Split_append)
qed

lemma runeSize_le: "runeSize bs \<le> length bs"
  by (cases bs) (auto split: list.splits)

lemma runeSize_append: "0 < runeSize bs \<Longrightarrow> runeSize (bs @ cs) = runeSize bs"
proof (cases bs)
  case Nil
  assume "0 < runeSize bs"
  with Nil show ?thesis by simp
next
  case (Cons b0 r)
  assume p: "0 < runeSize bs"
  consider "r = []" | b1 where "r = [b1]" | b1 b2 where "r = [b1, b2]"
    | b1 b2 b3 rest where "r = b1 # b2 # b3 # rest"
    by (cases r rule: list.exhaust; cases "tl r"; cases "tl (tl r)") auto
  then show ?thesis
  proof cases
    case 1
    with p Cons show ?thesis by (simp split: if_splits)
  next
    case 2
    with p Cons show ?thesis by (simp split: if_splits)
  next
    case 3
    with p Cons show ?thesis by (simp split: if_splits)
  next
    case 4
    with p Cons show ?thesis by simp
  qed
qed

lemma DecodeRuneSize_le: "DecodeRuneSize s \<le> length s"
  using runeSize_le [of "map of_char s"] by (simp add: DecodeRuneSize_def)

lemma DecodeRuneSize_append: "0 < DecodeRuneSize x \<Longrightarrow> DecodeRuneSize (x @ y) = DecodeRuneSize x"
  by (simp add: DecodeRuneSize_def runeSize_append)

lemma coerceUTF8_valid: "ValidString s \<Longrightarrow> coerceUTF8 s = s"
proof (induction s rule: ValidString.induct)
  case (1 s)
  show ?case
  proof (cases "s = []")
    case True
    then show ?thesis by (subst coerceUTF8.simps) simp
  next
    case False
    from "1.prems" False have n: "DecodeRuneSize s \<noteq> 0"
      by (subst (asm) ValidString.simps) (simp split: if_splits)
    from "1.prems" False n have "ValidString (drop (DecodeRuneSize s) s)"
      by (subst (asm) ValidString.simps) simp
    with "1.IH" False n have "coerceUTF8 (drop (DecodeRuneSize s) s) = drop (DecodeRuneSize s) s"
      by simp
    with False n show ?thesis by (subst coerceUTF8.simps) simp
  qed
qed

lemma ValidString_append: "ValidString x \<Longrightarrow> ValidString y \<Longrightarrow> ValidString (x @ y)"
proof (induction x rule: ValidString.induct)
  case (1 s)
  show ?case
  proof (cases "s = []")
    case True
    with "1.prems" show ?thesis by simp
  next
    case False
    from "1.prems"(1) False have n: "DecodeRuneSize s \<noteq> 0"
      by (subst (asm) ValidString.simps) (simp split: if_splits)
    from "1.prems"(1) False n have "ValidString (drop (DecodeRuneSize s) s)"
      by (subst (asm) ValidString.simps) simp
    with "1.IH" False n "1.prems"(2) have v: "ValidString (drop (DecodeRuneSize s) s @ y)"
      by simp
    from n have e: "DecodeRuneSize (s @ y) = DecodeRuneSize s"
      by (simp add: DecodeRuneSize_append)
    have "drop (DecodeRuneSize s) (s @ y) = drop (DecodeRuneSize s) s @ y"
      using DecodeRuneSize_le [of s] by simp
    with v e n False show ?thesis by (subst ValidString.simps) simp
  qed
qed

lemma ValidString_Nil: "ValidString []"
  by (subst ValidString.simps) simp

lemma ValidString_comma: "ValidString '',''"
  by code_simp

lemma ValidString_Join: "\<forall>x\<in>set v. ValidString x \<Longrightarrow> ValidString (Join v '','')"
proof (induction v "'',''" rule: Join.induct)
  case 1
  then show ?case by (simp add: ValidString_Nil)
next
  case (2 x)
  then show ?case by simp
next
  case (3 x y ys)
  then have j: "ValidString (Join (y # ys) '','')" by simp
  have r: "ValidString ('','' @ Join (y # ys) '','')"
    using ValidString_comma j by (rule ValidString_append)
  from 3 have "ValidString x" by simp
  then have "ValidString (x @ '','' @ Join (y # ys) '','')"
    using r by (rule ValidString_append)
  then show ?case by simp
qed

lemma csv_roundtrip:
  assumes "v \<noteq> []" and "\<forall>x\<in>set v. CHR '','' \<notin> set x \<and> ValidString x"
  shows "commaSeperatedValues_MarshalJSON v = JString (Join v '','')"
    and "commaSeperatedValues_UnmarshalJSON (commaSeperatedValues_MarshalJSON v) = Inr v"
proof -
  have "ValidString (Join v '','')" using assms(2) by (simp add: ValidString_Join)
  then show m: "commaSeperatedValues_MarshalJSON v = JString (Join v '','')"
    by (simp add: commaSeperatedValues_MarshalJSON_def coerceUTF8_valid)
  have "Split (Join v [CHR '','']) CHR '','' = v"
    using assms by (intro Split_Join) auto
  then show "commaSeperatedValues_UnmarshalJSON (commaSeperatedValues_MarshalJSON v) = Inr v"
    by (simp add: m commaSeperatedValues_UnmarshalJSON_def)
qed

lemma unmarshalMembers_marshalled:
  assumes "\<forall>(k, v)\<in>set kvs. ValidString k \<and> v \<noteq> [] \<and> (\<forall>x\<in>set v. CHR '','' \<notin> set x \<and> ValidString x)"
  shows "unmarshalMembers (map (\<lambda>(k, v). (coerceUTF8 k, commaSeperatedValues_MarshalJSON v)) kvs) m
           = Inr (fold (\<lambda>(k, v). fmupd k v) kvs m)"
  using assms
proof (induction kvs arbitrary: m)
  case Nil
  then show ?case by simp
next
  case (Cons kv kvs)
  obtain k v where kv: "kv = (k, v)" by (cases kv)
  from Cons.prems kv have g: "ValidString k" "v \<noteq> []" "\<forall>x\<in>set v. CHR '','' \<notin> set x \<and> ValidString x"
    by auto
  from Cons.prems have r: "\<forall>(k, v)\<in>set kvs. ValidString k \<and> v \<noteq> [] \<and> (\<forall>x\<in>set v. CHR '','' \<notin> set x \<and> ValidString x)"
    by simp
  show ?case
    using csv_roundtrip(2) [OF g(2) g(3)] Cons.IH [OF r] kv g(1)
    by (simp add: coerceUTF8_valid)
qed

lemma fmlookup_fold_fmupd:
  "distinct (map fst kvs) \<Longrightarrow>
     fmlookup (fold (\<lambda>(k, v). fmupd k v) kvs m) k =
       (case map_of kvs k of Some v \<Rightarrow> Some v | None \<Rightarrow> fmlookup m k)"
proof (induction kvs arbitrary: m)
  case Nil
  then show ?case by simp
next
  case (Cons kv kvs)
  obtain a b where kv: "kv = (a, b)" by (cases kv)
  from Cons.prems kv have d: "distinct (map fst kvs)" and n: "map_of kvs a = None"
    by (simp_all add: map_of_eq_None_iff)
  show ?case
    using Cons.IH [OF d, of "fmupd a b m"] kv n
    by (auto split: option.splits)
qed

lemma distinct_sorted_list_of_fmap: "distinct (map fst (sorted_list_of_fmap m))"
  by (simp add: sorted_list_of_fmap_def comp_def sorted_list_of_fset.rep_eq)

lemma fold_sorted_list_of_fmap: "fold (\<lambda>(k, v). fmupd k v) (sorted_list_of_fmap m) fmempty = m"
proof (rule fmap_ext)
  fix k
  show "fmlookup (fold (\<lambda>(k, v). fmupd k v) (sorted_list_of_fmap m) fmempty) k = fmlookup m k"
    by (simp add: fmlookup_fold_fmupd [OF distinct_sorted_list_of_fmap] split: option.splits)
qed

lemma set_sorted_list_of_fmap:
  "(k, v) \<in> set (sorted_list_of_fmap m) \<longleftrightarrow> fmlookup m k = Some v"
  using map_of_eq_Some_iff [OF distinct_sorted_list_of_fmap, of m k v] by simp

lemma roundtrip_map:
  assumes "commaFree m" and "validUTF8 m"
  shows "marshalMap m = JObject (map (\<lambda>(k, v). (k, JString (Join v '',''))) (sorted_list_of_fmap m))"
    and "unmarshalMap (marshalMap m) = Inr m"
proof -
  have g: "\<forall>(k, v)\<in>set (sorted_list_of_fmap m).
             ValidString k \<and> v \<noteq> [] \<and> (\<forall>x\<in>set v. CHR '','' \<notin> set x \<and> ValidString x)"
  proof (clarify)
    fix k v
    assume "(k, v) \<in> set (sorted_list_of_fmap m)"
    then have l: "fmlookup m k = Some v" by (simp add: set_sorted_list_of_fmap)
    from assms(1) l have "v \<noteq> [] \<and> list_all (\<lambda>x. CHR '','' \<notin> set x) v"
      unfolding commaFree_def by (rule fmpredD)
    moreover from assms(2) l have "ValidString k \<and> list_all ValidString v"
      unfolding validUTF8_def by (rule fmpredD)
    ultimately show "ValidString k \<and> v \<noteq> [] \<and> (\<forall>x\<in>set v. CHR '','' \<notin> set x \<and> ValidString x)"
      by (simp add: list_all_iff)
  qed
  have "map (\<lambda>(k, v). (coerceUTF8 k, commaSeperatedValues_MarshalJSON v)) (sorted_list_of_fmap m)
          = map (\<lambda>(k, v). (k, JString (Join v '',''))) (sorted_list_of_fmap m)"
    using g by (intro map_cong refl) (auto simp: coerceUTF8_valid csv_roundtrip(1))
  then show "marshalMap m = JObject (map (\<lambda>(k, v). (k, JString (Join v '',''))) (sorted_list_of_fmap m))"
    by (simp add: marshalMap_def)
  show "unmarshalMap (marshalMap m) = Inr m"
    using unmarshalMembers_marshalled [OF g, of fmempty]
    by (simp add: unmarshalMap_def marshalMap_def fold_sorted_list_of_fmap)
qed

text \<open>
  Claim C10, as stated, at the header map whose one value is the byte FF: its value
  list is non-empty and holds no comma, yet what comes back holds the three bytes of
  U+FFFD in its place, so the round trip is not the identity.
\<close>

theorem json_roundtrip_counterexample:
  "commaFree latin1_headers
   \<and> functionURLHeaders_UnmarshalJSON (functionURLHeaders_MarshalJSON latin1_headers)
       = Inr (fmupd ''X-Name'' [[CHR 0xEF, CHR 0xBF, CHR 0xBD]] fmempty)
   \<and> functionURLHeaders_UnmarshalJSON (functionURLHeaders_MarshalJSON latin1_headers)
       \<noteq> Inr latin1_headers"
  by code_simp

text \<open>
  Claim C10, amended: for every headers or query-parameter map in which each value list
  is non-empty, no list element contains a comma, and every key and element is valid
  UTF-8, unmarshalling the result of marshalling yields the original map; the
  marshalled JSON is the object that gives each key the one string of its values
  joined by commas.
\<close>

theorem json_roundtrip:
  assumes "commaFree m" and "validUTF8 m"
  shows "functionURLHeaders_UnmarshalJSON (functionURLHeaders_MarshalJSON m) = Inr m
         \<and> functionURLValues_UnmarshalJSON (functionURLValues_MarshalJSON m) = Inr m
         \<and> functionURLHeaders_MarshalJSON m
             = JObject (map (\<lambda>(k, v). (k, JString (Join v '',''))) (sorted_list_of_fmap m))
         \<and> functionURLValues_MarshalJSON m
             = JObject (map (\<lambda>(k, v). (k, JString (Join v '',''))) (sorted_list_of_fmap m))"
  using roundtrip_map [OF assms]
  by (simp add: functionURLHeaders_UnmarshalJSON_def functionURLHeaders_MarshalJSON_def
      functionURLValues_UnmarshalJSON_def functionURLValues_MarshalJSON_def)

theorem json_roundtrip_witness:
  "commaFree demo_headers \<and> validUTF8 demo_headers
   \<and> functionURLHeaders_UnmarshalJSON (functionURLHeaders_MarshalJSON demo_headers) = Inr demo_headers
   \<and> functionURLHeaders_MarshalJSON demo_headers
       = JObject [(''Accept'', JString ''text/html,*/*''), (''Host'', JString ''example.org'')]"
proof -
  have c: "commaFree demo_headers" by code_simp
  have v: "validUTF8 demo_headers" by code_simp
  have s: "sorted_list_of_fmap demo_headers
             = [(''Accept'', [''text/html'', ''*/*'']), (''Host'', [''example.org''])]"
    by code_simp
  note r = json_roundtrip [OF c v]
  from r have a: "functionURLHeaders_UnmarshalJSON (functionURLHeaders_MarshalJSON demo_headers)
                   = Inr demo_headers"
    by (rule conjunct1)
  from r have "functionURLHeaders_MarshalJSON demo_headers
                 = JObject (map (\<lambda>(k, v). (k, JString (Join v '',''))) (sorted_list_of_fmap demo_headers))"
    by blast
  then have b: "functionURLHeaders_MarshalJSON demo_headers
       = JObject [(''Accept'', JString ''text/html,*/*''), (''Host'', JString ''example.org'')]"
    by (simp add: s)
  from c v a b show ?thesis by blast
qed

end
